theory Spec2Isabelle
  imports Complex_Main
begin

section \<open>Strings\<close>

text \<open>
  A JavaScript string is modelled as a \<^typ>\<open>string\<close> (a list of 8-bit characters), so the
  development speaks about texts whose code units are below 256. The helpers below are the
  built-in string operations the sources call.
\<close>

definition isDigit :: "char \<Rightarrow> bool" where
  \<comment> \<open>the regular-expression class \<open>\d\<close> (without the unicode flag: ASCII digits only)\<close>
  "isDigit c = (c \<in> set ''0123456789'')"

definition isIdentChar :: "char \<Rightarrow> bool" where
  \<comment> \<open>the regular-expression class \<open>[0-9A-Za-z-]\<close>\<close>
  "isIdentChar c =
     (c \<in> set ''0123456789ABCDEFGHIJKLMNOPQRSTUVWXYZabcdefghijklmnopqrstuvwxyz-'')"

definition isSpace :: "char \<Rightarrow> bool" where
  \<comment> \<open>white space and line terminators removed by \<open>String.prototype.trim\<close>, among the
      code units below 256: TAB, LF, VT, FF, CR, SP and NBSP\<close>
  "isSpace c = (c \<in> {CHR 0x09, CHR 0x0A, CHR 0x0B, CHR 0x0C, CHR 0x0D, CHR 0x20, CHR 0xA0})"

definition trim :: "string \<Rightarrow> string" where
  "trim s = rev (dropWhile isSpace (rev (dropWhile isSpace s)))"

fun splitOn :: "char \<Rightarrow> string \<Rightarrow> string list" where
  \<comment> \<open>\<open>s.split(c)\<close> for a one-character separator: always at least one piece\<close>
  "splitOn c [] = [[]]"
| "splitOn c (x # xs) =
     (if x = c then [] # splitOn c xs
      else (case splitOn c xs of [] \<Rightarrow> [[x]] | p # ps \<Rightarrow> (x # p) # ps))"

fun startsWith :: "string \<Rightarrow> string \<Rightarrow> bool" where
  "startsWith s [] = True"
| "startsWith [] (p # ps) = False"
| "startsWith (x # xs) (p # ps) = (x = p \<and> startsWith xs ps)"

fun includesStr :: "string \<Rightarrow> string \<Rightarrow> bool" where
  \<comment> \<open>\<open>s.includes(sub)\<close>\<close>
  "includesStr [] sub = (sub = [])"
| "includesStr (x # xs) sub = (startsWith (x # xs) sub \<or> includesStr xs sub)"

fun join :: "string \<Rightarrow> string list \<Rightarrow> string" where
  \<comment> \<open>\<open>parts.join(sep)\<close>\<close>
  "join sep [] = []"
| "join sep [p] = p"
| "join sep (p # q # ps) = p @ sep @ join sep (q # ps)"

definition digitValue :: "char \<Rightarrow> int" where
  "digitValue c = of_char c - of_char CHR ''0''"

definition decimalValue :: "string \<Rightarrow> int" where
  \<comment> \<open>the natural number that a string of decimal digits denotes\<close>
  "decimalValue s = foldl (\<lambda>acc c. 10 * acc + digitValue c) 0 s"

datatype number = Finite int | Infinity

text \<open>
  A value of \<^typ>\<open>number\<close> is the Number that \<open>Number.parseInt\<close> returns for a string of
  digits: a natural number or \<open>Infinity\<close>. The order is that of the operators \<open>===\<close> and
  \<open>>\<close> on these values.
\<close>

instantiation number :: linorder
begin

fun less_eq_number :: "number \<Rightarrow> number \<Rightarrow> bool" where
  "less_eq_number (Finite a) (Finite b) = (a \<le> b)"
| "less_eq_number x Infinity = True"
| "less_eq_number Infinity (Finite b) = False"

fun less_number :: "number \<Rightarrow> number \<Rightarrow> bool" where
  "less_number (Finite a) (Finite b) = (a < b)"
| "less_number (Finite a) Infinity = True"
| "less_number Infinity y = False"

instance
proof
  fix x y z :: number
  show "(x < y) = (x \<le> y \<and> \<not> y \<le> x)" by (cases x; cases y) auto
  show "x \<le> x" by (cases x) auto
  show "x \<le> y \<Longrightarrow> y \<le> z \<Longrightarrow> x \<le> z" by (cases x; cases y; cases z) auto
  show "x \<le> y \<Longrightarrow> y \<le> x \<Longrightarrow> x = y" by (cases x; cases y) auto
  show "x \<le> y \<or> y \<le> x" by (cases x; cases y) auto
qed

end

fun bitLength :: "int \<Rightarrow> nat" where
  \<comment> \<open>the number of binary digits of a natural number\<close>
  "bitLength n = (if n \<le> 0 then 0 else Suc (bitLength (n div 2)))"

declare bitLength.simps [simp del]

definition toDouble :: "int \<Rightarrow> number" where
  \<comment> \<open>the Number value of a natural number: a JavaScript number is a double, which keeps
      53 binary digits. A number below \<open>2^53\<close> is itself; a larger one is rounded to the
      nearest number with 53 significant binary digits, a tie going to the even one; from
      \<open>2^1024 - 2^970\<close> on the result is \<open>Infinity\<close>. (The language lets an engine
      ignore the digits after the 20th of a longer text; the engine of Bun converts the
      whole text.)\<close>
  "toDouble n =
     (if n < 2 ^ 53 then Finite n
      else
        (let e = bitLength n - 53;
             q = n div 2 ^ e;
             r = n mod 2 ^ e;
             half = 2 ^ (e - 1);
             q' = (if r > half \<or> (r = half \<and> odd q) then q + 1 else q);
             v = q' * 2 ^ e
         in if v \<ge> 2 ^ 1024 then Infinity else Finite v))"

definition parseInt :: "string \<Rightarrow> number" where
  \<comment> \<open>\<open>Number.parseInt(s, 10)\<close> on a string of decimal digits (the only strings the
      sources pass): the Number value of the number that the digits denote\<close>
  "parseInt s = toDouble (decimalValue s)"

section \<open>Version comparator (src/lib/utils/semver.ts)\<close>

datatype UpdateType = Major | Minor | Patch | NoUpdate

record SemverParts =
  major :: number
  minor :: number
  patch :: number
  prerelease :: "string option"
  build :: "string option"

definition identifiers :: "string \<Rightarrow> bool" where
  \<comment> \<open>the sub-expression \<open>[0-9A-Za-z-]+(?:\.[0-9A-Za-z-]+)*\<close> matched against a whole
      text: dot-separated, each piece non-empty and made of identifier characters\<close>
  "identifiers s = list_all (\<lambda>p. p \<noteq> [] \<and> list_all isIdentChar p) (splitOn CHR ''.'' s)"

definition matchBuild :: "string \<Rightarrow> string option option" where
  \<comment> \<open>the tail \<open>(?:\+(identifiers))?$\<close>: \<open>None\<close> is no match, \<open>Some None\<close> a match
      without build metadata\<close>
  "matchBuild s =
     (case s of
        [] \<Rightarrow> Some None
      | c # b \<Rightarrow> if c = CHR ''+'' \<and> identifiers b then Some (Some b) else None)"

definition matchTail :: "string \<Rightarrow> (string option \<times> string option) option" where
  \<comment> \<open>the tail \<open>(?:-(identifiers))?(?:\+(identifiers))?$\<close> after the patch digits. An
      identifier character is never \<open>+\<close>, so a prerelease group that matches extends to the
      first \<open>+\<close> or to the end of the text.\<close>
  "matchTail s =
     (case s of
        [] \<Rightarrow> Some (None, None)
      | c # r \<Rightarrow>
          if c = CHR ''-'' then
            (let pre = takeWhile (\<lambda>x. x \<noteq> CHR ''+'') r;
                 rest = dropWhile (\<lambda>x. x \<noteq> CHR ''+'') r
             in if identifiers pre then
                  (case matchBuild rest of None \<Rightarrow> None | Some b \<Rightarrow> Some (Some pre, b))
                else None)
          else (case matchBuild s of None \<Rightarrow> None | Some b \<Rightarrow> Some (None, b)))"

definition digitsThen :: "string \<Rightarrow> (string \<times> string) option" where
  \<comment> \<open>\<open>(\d+)\<close> at the start of the text: the longest run of digits, which must not be
      empty, and what follows it\<close>
  "digitsThen s =
     (let ds = takeWhile isDigit s in
      if ds = [] then None else Some (ds, dropWhile isDigit s))"

definition dotThen :: "string \<Rightarrow> string option" where
  \<comment> \<open>\<open>\.\<close> at the start of the text\<close>
  "dotThen s = (case s of [] \<Rightarrow> None | c # r \<Rightarrow> if c = CHR ''.'' then Some r else None)"

definition parseSemver :: "string \<Rightarrow> SemverParts option" where
  "parseSemver version =
     (let cleaned = (case version of [] \<Rightarrow> [] | c # r \<Rightarrow> if c = CHR ''v'' then r else version)
      in case digitsThen cleaned of None \<Rightarrow> None | Some (majorStr, r1) \<Rightarrow>
         (case dotThen r1 of None \<Rightarrow> None | Some r1' \<Rightarrow>
         (case digitsThen r1' of None \<Rightarrow> None | Some (minorStr, r2) \<Rightarrow>
         (case dotThen r2 of None \<Rightarrow> None | Some r2' \<Rightarrow>
         (case digitsThen r2' of None \<Rightarrow> None | Some (patchStr, r3) \<Rightarrow>
         (case matchTail r3 of None \<Rightarrow> None | Some (pre, bld) \<Rightarrow>
            Some \<lparr> major = parseInt majorStr, minor = parseInt minorStr,
                   patch = parseInt patchStr, prerelease = pre, build = bld \<rparr>))))))"

definition getUpdateType :: "string \<Rightarrow> string \<Rightarrow> UpdateType" where
  "getUpdateType current latest =
     (case (parseSemver current, parseSemver latest) of
        (Some currentParts, Some latestParts) \<Rightarrow>
          if major currentParts = major latestParts \<and> minor currentParts = minor latestParts
             \<and> patch currentParts = patch latestParts then NoUpdate
          else if major latestParts > major currentParts then Major
          else if major latestParts = major currentParts
                  \<and> minor latestParts > minor currentParts then Minor
          else if major latestParts = major currentParts
                  \<and> minor latestParts = minor currentParts
                  \<and> patch latestParts > patch currentParts then Patch
          else NoUpdate
      | _ \<Rightarrow> NoUpdate)"

subsection \<open>The grammar of a version, as the contract of the comparator words it\<close>

text \<open>
  A version is an optional leading \<open>v\<close>, then strictly major.minor.patch (three non-empty
  runs of digits), then an optional \<open>-\<close> with a prerelease tag and an optional \<open>+\<close> with
  build metadata; a tag is one or more non-empty segments of letters, digits and hyphens,
  separated by dots. These definitions say it on the text as a whole; they are what
  \<open>parseSemver\<close> is compared with.
\<close>

definition digitRun :: "string \<Rightarrow> bool" where
  "digitRun s = (s \<noteq> [] \<and> list_all isDigit s)"

definition identifierList :: "string \<Rightarrow> bool" where
  "identifierList s =
     (\<exists>ids. ids \<noteq> [] \<and> list_all (\<lambda>i. i \<noteq> [] \<and> list_all isIdentChar i) ids
            \<and> s = join ''.'' ids)"

definition optionalTag :: "char \<Rightarrow> string option \<Rightarrow> string" where
  \<comment> \<open>the text of an optional tag after its marker\<close>
  "optionalTag marker tag = (case tag of None \<Rightarrow> [] | Some t \<Rightarrow> marker # t)"

definition tagOk :: "string option \<Rightarrow> bool" where
  "tagOk tag = (case tag of None \<Rightarrow> True | Some t \<Rightarrow> identifierList t)"

definition semverText ::
  "string \<Rightarrow> string \<Rightarrow> string \<Rightarrow> string \<Rightarrow> string option \<Rightarrow> string option \<Rightarrow> bool" where
  \<comment> \<open>\<open>semverText s majorStr minorStr patchStr pre bld\<close>: the text \<open>s\<close> is a version with
      these three digit runs, this prerelease tag and this build metadata\<close>
  "semverText s majorStr minorStr patchStr pre bld =
     (digitRun majorStr \<and> digitRun minorStr \<and> digitRun patchStr \<and> tagOk pre \<and> tagOk bld
      \<and> (let core = majorStr @ ''.'' @ minorStr @ ''.'' @ patchStr
                      @ optionalTag CHR ''-'' pre @ optionalTag CHR ''+'' bld
         in s = core \<or> s = CHR ''v'' # core))"

section \<open>Numbers and their text\<close>

text \<open>
  Counts and scores are JavaScript numbers. Counts are modelled as \<^typ>\<open>int\<close>; a value that
  may be fractional (a quotient, a coverage percentage) as \<^typ>\<open>rat\<close>, computed exactly,
  without the rounding error of double arithmetic. The two places that round a percentage,
  \<open>Math.round((a / b) * 100)\<close> in \<open>calculateTestCoverage\<close> and in
  \<open>calculateDependencyFreshnessScore\<close>, can therefore differ by one from the source where
  the exact percentage ends in a half: for 23 of 40 the exact 57.5 is rounded to 58, and the
  double product 57.49999999999999 to 57.
\<close>

definition jsRound :: "rat \<Rightarrow> int" where
  \<comment> \<open>\<open>Math.round\<close>: the nearest integer, a tie going up\<close>
  "jsRound x = \<lfloor>x + 1 / 2\<rfloor>"

definition digitChar :: "nat \<Rightarrow> char" where
  "digitChar d = char_of (of_char CHR ''0'' + d)"

function showNat :: "nat \<Rightarrow> string" where
  "showNat n = (if n < 10 then [digitChar n] else showNat (n div 10) @ [digitChar (n mod 10)])"
  by pat_completeness auto
termination
  by (relation "measure id") auto

declare showNat.simps [simp del]

definition showInt :: "int \<Rightarrow> string" where
  \<comment> \<open>the text of an integer in a template literal\<close>
  "showInt i = (if i < 0 then CHR ''-'' # showNat (nat (- i)) else showNat (nat i))"

definition toLowerChar :: "char \<Rightarrow> char" where
  \<comment> \<open>lower case of a code unit below 256: A-Z, and the upper-case letters of Latin-1\<close>
  "toLowerChar c =
     (let n = (of_char c :: nat) in
      if (65 \<le> n \<and> n \<le> 90) \<or> (192 \<le> n \<and> n \<le> 222 \<and> n \<noteq> 215) then char_of (n + 32) else c)"

definition toLowerCase :: "string \<Rightarrow> string" where
  "toLowerCase s = map toLowerChar s"

definition asciiLowerChar :: "char \<Rightarrow> char" where
  "asciiLowerChar c =
     (let n = (of_char c :: nat) in if 65 \<le> n \<and> n \<le> 90 then char_of (n + 32) else c)"

definition includesIgnoreCase :: "string \<Rightarrow> string \<Rightarrow> bool" where
  \<comment> \<open>\<open>/word/i.test(s)\<close> for a lower-case ASCII word: without the unicode flag only the
      ASCII letters A-Z match their lower-case forms\<close>
  "includesIgnoreCase s word = includesStr (map asciiLowerChar s) word"

definition quoted :: "string \<Rightarrow> string" where
  \<comment> \<open>a text between double quotes\<close>
  "quoted s = [CHR 0x22] @ s @ [CHR 0x22]"

datatype error = Error string | SyntaxError | TypeError

subsection \<open>Reading a property of a parsed object\<close>

text \<open>
  An object that \<open>JSON.parse\<close> returns, and the literal \<open>{}\<close>, inherit from
  \<open>Object.prototype\<close>. Reading \<open>obj[key]\<close> gives the own property of that name when the
  object has one; otherwise, for the twelve names below, it gives the member of
  \<open>Object.prototype\<close> (a function, or the prototype itself for \<open>__proto__\<close>), which is
  truthy, is not nullish, and has none of the fields of the interfaces; for every other name
  it gives undefined.
\<close>

definition objectPrototypeNames :: "string list" where
  "objectPrototypeNames =
     [''constructor'', ''__defineGetter__'', ''__defineSetter__'', ''hasOwnProperty'',
      ''__lookupGetter__'', ''__lookupSetter__'', ''isPrototypeOf'', ''propertyIsEnumerable'',
      ''toString'', ''valueOf'', ''__proto__'', ''toLocaleString'']"

datatype 'a property = Own 'a | Inherited | Absent

definition getProperty :: "(string \<rightharpoonup> 'a) \<Rightarrow> string \<Rightarrow> 'a property" where
  \<comment> \<open>\<open>obj[key]\<close>\<close>
  "getProperty obj key =
     (case obj key of
        Some v \<Rightarrow> Own v
      | None \<Rightarrow> if key \<in> set objectPrototypeNames then Inherited else Absent)"

section \<open>Risk scorer (src/lib/scorers/risk.ts)\<close>

datatype RiskLevel = RiskLow | RiskMedium | RiskHigh | RiskCritical

record RiskFactor =
  score :: int
  reason :: string

record RiskFactors =
  updateType :: RiskFactor
  usageScope :: RiskFactor
  criticalPaths :: RiskFactor
  testCoverage :: RiskFactor

record RiskAssessment =
  \<comment> \<open>\<open>from'\<close> and \<open>to'\<close> are the fields \<open>from\<close> and \<open>to\<close>\<close>
  package :: string
  from' :: string
  to' :: string
  updateType :: UpdateType
  riskScore :: int
  riskLevel :: RiskLevel
  factors :: RiskFactors
  recommendations :: "string list"

record RiskAssessmentOptions =
  fromVersion :: "string option"
  toVersion :: "string option"

record PackageJson =
  dependencies :: "(string \<rightharpoonup> string) option"
  devDependencies :: "(string \<rightharpoonup> string) option"

record ExecResult =
  stdout :: string
  stderr :: string
  exitCode :: int

definition cleanVersionString :: "string \<Rightarrow> string" where
  "cleanVersionString version = dropWhile (\<lambda>c. c \<in> set ''^~>=<'') version"

definition getCurrentVersion :: "PackageJson option \<Rightarrow> string \<Rightarrow> string option" where
  \<comment> \<open>the first argument is the parsed package.json of the project, \<open>None\<close> when reading
      or parsing it throws (the catch returns null). An inherited member read from
      \<open>dependencies\<close> is not nullish, so \<open>devDependencies\<close> is not consulted; it is not a
      string, so \<open>cleanVersionString\<close> throws and the catch returns null.\<close>
  "getCurrentVersion manifest packageName =
     (case manifest of
        None \<Rightarrow> None
      | Some pkg \<Rightarrow>
          (let version =
                 (case (case dependencies pkg of
                          None \<Rightarrow> Absent
                        | Some deps \<Rightarrow> getProperty deps packageName) of
                    Absent \<Rightarrow> (case devDependencies pkg of
                                 None \<Rightarrow> Absent
                               | Some deps \<Rightarrow> getProperty deps packageName)
                  | found \<Rightarrow> found)
           in case version of
                Absent \<Rightarrow> None
              | Inherited \<Rightarrow> None
              | Own v \<Rightarrow> if v = [] then None else Some (cleanVersionString v)))"

definition getLatestVersion ::
  "(string \<Rightarrow> string list \<Rightarrow> error + ExecResult) \<Rightarrow> string \<Rightarrow> string option" where
  \<comment> \<open>the first argument is the command executor in the project directory\<close>
  "getLatestVersion exec packageName =
     (case exec ''npm'' [''view'', packageName, ''version''] of
        Inl e \<Rightarrow> None
      | Inr result \<Rightarrow> if exitCode result \<noteq> 0 then None else Some (trim (stdout result)))"

definition scoreUpdateType :: "UpdateType \<Rightarrow> RiskFactor" where
  "scoreUpdateType t =
     (case t of
        Major \<Rightarrow> \<lparr> RiskFactor.score = 40, reason = ''Major version bump'' \<rparr>
      | Minor \<Rightarrow> \<lparr> RiskFactor.score = 15, reason = ''Minor version bump'' \<rparr>
      | Patch \<Rightarrow> \<lparr> RiskFactor.score = 5, reason = ''Patch version bump'' \<rparr>
      | NoUpdate \<Rightarrow> \<lparr> RiskFactor.score = 0, reason = ''No version change'' \<rparr>)"

definition scoreUsageScope :: "int \<Rightarrow> RiskFactor" where
  "scoreUsageScope fileCount =
     (if fileCount = 0 then \<lparr> RiskFactor.score = 0, reason = ''Not used in any files'' \<rparr>
      else if fileCount \<le> 5 then
        \<lparr> RiskFactor.score = 10,
          reason = ''Used in '' @ showInt fileCount @ '' file'' @ (if fileCount > 1 then ''s'' else []) \<rparr>
      else if fileCount \<le> 20 then
        \<lparr> RiskFactor.score = 20, reason = ''Used in '' @ showInt fileCount @ '' files'' \<rparr>
      else \<lparr> RiskFactor.score = 30, reason = ''Used in '' @ showInt fileCount @ '' files'' \<rparr>)"

record CriticalPathResult =
  hasApiRoutes :: bool
  hasMiddleware :: bool
  hasAuth :: bool

definition matchesDir :: "string \<Rightarrow> string \<Rightarrow> bool" where
  \<comment> \<open>\<open>/(?:^|\/)dir\//.test(path)\<close>: the path starts with \<open>dir/\<close> or contains \<open>/dir/\<close>\<close>
  "matchesDir dir path =
     (startsWith path (dir @ ''/'') \<or> includesStr path (''/'' @ dir @ ''/''))"

definition detectCriticalPaths :: "string list \<Rightarrow> CriticalPathResult" where
  "detectCriticalPaths filePaths =
     foldl (\<lambda>result path.
              result \<lparr> hasApiRoutes :=
                         (if matchesDir ''api'' path \<or> matchesDir ''routes'' path then True
                          else hasApiRoutes result),
                       hasMiddleware :=
                         (if includesIgnoreCase path ''middleware'' then True
                          else hasMiddleware result),
                       hasAuth :=
                         (if includesIgnoreCase path ''auth'' then True else hasAuth result) \<rparr>)
           \<lparr> hasApiRoutes = False, hasMiddleware = False, hasAuth = False \<rparr> filePaths"

definition scoreCriticalPaths :: "string list \<Rightarrow> RiskFactor" where
  "scoreCriticalPaths filePaths =
     (let critical = detectCriticalPaths filePaths;
          s1 = (if hasApiRoutes critical then 10 else 0);
          r1 = (if hasApiRoutes critical then [''API routes''] else []);
          s2 = s1 + (if hasMiddleware critical then 5 else 0);
          r2 = r1 @ (if hasMiddleware critical then [''middleware''] else []);
          s3 = s2 + (if hasAuth critical then 5 else 0);
          r3 = r2 @ (if hasAuth critical then [''auth''] else [])
      in if r3 = [] then \<lparr> RiskFactor.score = 0, reason = ''Not used in critical paths'' \<rparr>
         else \<lparr> RiskFactor.score = min s3 20, reason = ''Used in '' @ join '' and '' r3 \<rparr>)"

definition sourceExts :: "string list" where
  "sourceExts = [''.ts'', ''.tsx'', ''.js'', ''.jsx'', ''.mjs'', ''.cjs'']"

definition sourceExt :: "string \<Rightarrow> string option" where
  \<comment> \<open>the match of \<open>/\.(ts|tsx|js|jsx|mjs|cjs)$/\<close>: the text from the last dot on, when it
      is one of the six extensions\<close>
  "sourceExt filePath =
     (let e = rev (takeWhile (\<lambda>c. c \<noteq> CHR ''.'') (rev filePath)) in
      if CHR ''.'' \<in> set filePath \<and> (CHR ''.'' # e) \<in> set sourceExts
      then Some (CHR ''.'' # e) else None)"

definition testPatterns :: "string \<Rightarrow> string list" where
  \<comment> \<open>the five candidate test-file paths of \<open>hasTestFile\<close>\<close>
  "testPatterns filePath =
     (let basePath = (case sourceExt filePath of
                        None \<Rightarrow> filePath
                      | Some e \<Rightarrow> take (length filePath - length e) filePath);
          ext = (case sourceExt filePath of None \<Rightarrow> ''.ts'' | Some e \<Rightarrow> e);
          lastSeg = rev (takeWhile (\<lambda>c. c \<noteq> CHR ''/'') (rev basePath));
          inTests = (if CHR ''/'' \<in> set basePath \<and> lastSeg \<noteq> []
                     then take (length basePath - length lastSeg) basePath @ ''__tests__/'' @ lastSeg
                     else basePath);
          mirrored = (if startsWith basePath ''src/'' then ''tests/'' @ drop 4 basePath
                      else basePath)
      in [basePath @ ''.test'' @ ext,
          basePath @ ''.spec'' @ ext,
          inTests @ ext,
          mirrored @ ''.test.'' @ drop 1 ext,
          mirrored @ ''.test'' @ ext])"

definition hasTestFile :: "(string \<Rightarrow> bool) \<Rightarrow> string \<Rightarrow> string \<Rightarrow> bool" where
  \<comment> \<open>the first argument tells which paths exist as files\<close>
  "hasTestFile fileExists filePath cwd =
     list_ex (\<lambda>pattern. fileExists (cwd @ ''/'' @ pattern)) (testPatterns filePath)"

definition calculateTestCoverage :: "(string \<Rightarrow> bool) \<Rightarrow> string list \<Rightarrow> string \<Rightarrow> int" where
  "calculateTestCoverage fileExists filePaths cwd =
     (if length filePaths = 0 then 100
      else
        (let filesWithTests = length (filter (\<lambda>filePath. hasTestFile fileExists filePath cwd) filePaths)
         in jsRound (of_nat filesWithTests / of_nat (length filePaths) * 100)))"

definition scoreTestCoverage :: "int \<Rightarrow> RiskFactor" where
  "scoreTestCoverage coveragePercent =
     (if coveragePercent > 50 then
        \<lparr> RiskFactor.score = 0, reason = showInt coveragePercent @ ''% of importing files have tests'' \<rparr>
      else if coveragePercent > 0 then
        \<lparr> RiskFactor.score = 5, reason = showInt coveragePercent @ ''% of importing files have tests'' \<rparr>
      else \<lparr> RiskFactor.score = 10, reason = ''No importing files have tests'' \<rparr>)"

definition getRiskLevel :: "int \<Rightarrow> RiskLevel" where
  "getRiskLevel s =
     (if s \<le> 25 then RiskLow
      else if s \<le> 50 then RiskMedium
      else if s \<le> 75 then RiskHigh
      else RiskCritical)"

definition generateRiskRecommendations ::
  "string \<Rightarrow> UpdateType \<Rightarrow> RiskFactors \<Rightarrow> CriticalPathResult \<Rightarrow> string list" where
  \<comment> \<open>\<open>generateRecommendations\<close> of risk.ts (the quality scorer has a function of the
      same name)\<close>
  "generateRiskRecommendations packageName t fs critical =
     (if t = Major then [''Review '' @ packageName @ '' migration guide'',
                         ''Run full test suite after upgrade'']
      else if t = Minor then [''Check '' @ packageName @ '' changelog for new features'']
      else [])
     @ (if RiskFactor.score (usageScope fs) \<ge> 20 then [''Consider incremental rollout''] else [])
     @ (if hasApiRoutes critical then [''Test API routes manually''] else [])
     @ (if hasAuth critical then [''Verify auth flows''] else [])
     @ (if hasMiddleware critical then [''Check middleware compatibility''] else [])
     @ (if RiskFactor.score (testCoverage fs) \<ge> 5 then [''Add tests before upgrading''] else [])"

record RiskEnv =
  manifest :: "PackageJson option"
  exec :: "string \<Rightarrow> string list \<Rightarrow> error + ExecResult"
  analyzeImports :: "string \<Rightarrow> error + string list"
  fileExists :: "string \<Rightarrow> bool"
  cwd :: string

text \<open>
  \<open>assessRisk\<close> reads the project from outside; \<^typ>\<open>RiskEnv\<close> holds what it reads: the
  parsed package.json, the command executor, the import analysis (the paths of the files
  that import a package, or the error it throws), the files that exist, and the project
  directory. A thrown error is the \<open>Inl\<close> result.
\<close>

definition given :: "string option \<Rightarrow> string option" where
  \<comment> \<open>a string, undefined or null used as a condition (\<open>if (!v)\<close>): the empty string is
      as absent as undefined and null\<close>
  "given v = (case v of None \<Rightarrow> None | Some s \<Rightarrow> if s = [] then None else Some s)"

definition assessRisk :: "RiskEnv \<Rightarrow> string \<Rightarrow> RiskAssessmentOptions \<Rightarrow> error + RiskAssessment" where
  "assessRisk env packageName options =
     (case (case given (fromVersion options) of
              Some v \<Rightarrow> Some v
            | None \<Rightarrow> given (getCurrentVersion (manifest env) packageName)) of
        None \<Rightarrow> Inl (Error (''Package '' @ quoted packageName @ '' not found in package.json''))
      | Some fromV \<Rightarrow>
     (case (case given (toVersion options) of
              Some v \<Rightarrow> Some v
            | None \<Rightarrow> given (getLatestVersion (exec env) packageName)) of
        None \<Rightarrow> Inl (Error (''Could not fetch latest version for '' @ quoted packageName))
      | Some toV \<Rightarrow>
     (case analyzeImports env packageName of
        Inl e \<Rightarrow> Inl e
      | Inr filePaths \<Rightarrow>
          (let t = getUpdateType fromV toV;
               fileCount = int (length filePaths);
               critical = detectCriticalPaths filePaths;
               coverage = calculateTestCoverage (fileExists env) filePaths (cwd env);
               fs = \<lparr> RiskFactors.updateType = scoreUpdateType t,
                      usageScope = scoreUsageScope fileCount,
                      criticalPaths = scoreCriticalPaths filePaths,
                      testCoverage = scoreTestCoverage coverage \<rparr>;
               total' = RiskFactor.score (RiskFactors.updateType fs) + RiskFactor.score (usageScope fs)
                       + RiskFactor.score (criticalPaths fs) + RiskFactor.score (testCoverage fs)
           in Inr \<lparr> package = packageName, from' = fromV, to' = toV,
                    RiskAssessment.updateType = t, riskScore = total',
                    riskLevel = getRiskLevel total', factors = fs,
                    recommendations = generateRiskRecommendations packageName t fs critical \<rparr>))))"

section \<open>Quality scorer: the metric calculators (src/lib/scorers/quality.ts)\<close>

record MetricBreakdown =
  score :: rat
  weight :: int
  details :: string

record Weights =
  dependencyFreshness :: int
  security :: int
  testCoverage :: int
  typescriptStrictness :: int
  linting :: int
  deadCode :: int

definition WEIGHTS :: Weights where
  "WEIGHTS = \<lparr> dependencyFreshness = 20, security = 25, Weights.testCoverage = 20,
               typescriptStrictness = 10, linting = 10, deadCode = 15 \<rparr>"

definition calculateDependencyFreshnessScore :: "int \<Rightarrow> int \<Rightarrow> MetricBreakdown" where
  "calculateDependencyFreshnessScore total' outdated =
     (if total' = 0 then
        \<lparr> MetricBreakdown.score = 100, weight = dependencyFreshness WEIGHTS,
          details = ''No dependencies'' \<rparr>
      else
        (let upToDate = total' - outdated;
             s = jsRound (of_int upToDate / of_int total' * 100);
             d = (if outdated = 0 then ''All packages up-to-date''
                  else showInt outdated @ '' of '' @ showInt total' @ '' packages outdated'')
         in \<lparr> MetricBreakdown.score = of_int s, weight = dependencyFreshness WEIGHTS,
              details = d \<rparr>))"

definition calculateSecurityScore :: "int \<Rightarrow> int \<Rightarrow> int \<Rightarrow> int \<Rightarrow> MetricBreakdown" where
  "calculateSecurityScore critical high moderate low =
     (let total' = critical + high + moderate + low in
      if total' = 0 then
        \<lparr> MetricBreakdown.score = 100, weight = security WEIGHTS,
          details = ''No vulnerabilities found'' \<rparr>
      else
        (let deduction = critical * 25 + high * 15 + moderate * 5 + low * 2;
             s = max 0 (100 - deduction);
             parts = (if critical > 0 then [showInt critical @ '' critical''] else [])
                   @ (if high > 0 then [showInt high @ '' high''] else [])
                   @ (if moderate > 0 then [showInt moderate @ '' moderate''] else [])
                   @ (if low > 0 then [showInt low @ '' low''] else [])
         in \<lparr> MetricBreakdown.score = of_int s, weight = security WEIGHTS,
              details = join '', '' parts @ '' vulnerabilities'' \<rparr>))"

definition calculateTestCoverageScore ::
  "(rat \<Rightarrow> string) \<Rightarrow> bool \<Rightarrow> rat option \<Rightarrow> MetricBreakdown" where
  \<comment> \<open>the first argument is the text of a number in a template literal\<close>
  "calculateTestCoverageScore numberText found percentage =
     (case percentage of
        None \<Rightarrow> \<lparr> MetricBreakdown.score = 0, weight = Weights.testCoverage WEIGHTS,
                  details = ''No coverage data found'' \<rparr>
      | Some p \<Rightarrow>
          if \<not> found then
            \<lparr> MetricBreakdown.score = 0, weight = Weights.testCoverage WEIGHTS,
              details = ''No coverage data found'' \<rparr>
          else \<lparr> MetricBreakdown.score = p, weight = Weights.testCoverage WEIGHTS,
                 details = numberText p @ ''% line coverage'' \<rparr>)"

definition calculateTypescriptStrictnessScore :: "bool \<Rightarrow> rat \<Rightarrow> string \<Rightarrow> MetricBreakdown" where
  "calculateTypescriptStrictnessScore exists tsconfigScore d =
     (if \<not> exists then
        \<lparr> MetricBreakdown.score = 0, weight = typescriptStrictness WEIGHTS,
          details = ''No tsconfig.json found'' \<rparr>
      else \<lparr> MetricBreakdown.score = tsconfigScore, weight = typescriptStrictness WEIGHTS,
             details = d \<rparr>)"

definition calculateLintingScore :: "rat \<Rightarrow> string \<Rightarrow> MetricBreakdown" where
  "calculateLintingScore lintingScore d =
     \<lparr> MetricBreakdown.score = lintingScore, weight = linting WEIGHTS, details = d \<rparr>"

definition calculateDeadCodeScore :: "bool \<Rightarrow> bool \<Rightarrow> MetricBreakdown" where
  "calculateDeadCodeScore noUnusedLocals noUnusedParameters =
     (let s1 = (50 :: int) + (if noUnusedLocals then 25 else 0);
          flags1 = (if noUnusedLocals then [''noUnusedLocals''] else []);
          s2 = s1 + (if noUnusedParameters then 25 else 0);
          flags2 = flags1 @ (if noUnusedParameters then [''noUnusedParameters''] else []);
          d = (if length flags2 > 0 then ''Enabled: '' @ join '', '' flags2
               else ''Automated dead code detection not implemented'')
      in \<lparr> MetricBreakdown.score = of_int s2, weight = deadCode WEIGHTS, details = d \<rparr>)"

section \<open>Package-manager detector (src/lib/analyzers/package-manager.ts)\<close>

datatype PackageManagerName = Bun | Pnpm | Yarn | Npm

record PackageManagerConfig =
  name :: PackageManagerName
  lockfile :: string
  installCommand :: string
  upgradeCommand :: string

record PackageManagerInfo =
  name :: PackageManagerName
  lockfile :: "string option"
  installCommand :: string
  upgradeCommand :: string
  hasMultipleLockfiles :: bool
  detectedLockfiles :: "string list"
  corepackSpec :: "string option"

record CorepackManifest =
  \<comment> \<open>what \<open>readPackageJson\<close> keeps of package.json\<close>
  packageManager :: "string option"

definition BUN_LOCKFILES :: "string list" where
  "BUN_LOCKFILES = [''bun.lock'', ''bun.lockb'']"

definition PACKAGE_MANAGERS :: "PackageManagerConfig list" where
  "PACKAGE_MANAGERS =
     [\<lparr> PackageManagerConfig.name = Bun, lockfile = ''bun.lock'',
        installCommand = ''bun install'', upgradeCommand = ''bun update'' \<rparr>,
      \<lparr> PackageManagerConfig.name = Pnpm, lockfile = ''pnpm-lock.yaml'',
        installCommand = ''pnpm install'', upgradeCommand = ''pnpm update'' \<rparr>,
      \<lparr> PackageManagerConfig.name = Yarn, lockfile = ''yarn.lock'',
        installCommand = ''yarn install'', upgradeCommand = ''yarn upgrade'' \<rparr>,
      \<lparr> PackageManagerConfig.name = Npm, lockfile = ''package-lock.json'',
        installCommand = ''npm install'', upgradeCommand = ''npm update'' \<rparr>]"

definition DEFAULT_PACKAGE_MANAGER :: PackageManagerInfo where
  "DEFAULT_PACKAGE_MANAGER =
     \<lparr> PackageManagerInfo.name = Npm, lockfile = None,
       installCommand = ''npm install'', upgradeCommand = ''npm update'',
       hasMultipleLockfiles = False, detectedLockfiles = [], corepackSpec = None \<rparr>"

definition parseCorepackSpec :: "string \<Rightarrow> PackageManagerName option" where
  \<comment> \<open>\<open>/^(bun|pnpm|yarn|npm)@/\<close>\<close>
  "parseCorepackSpec packageManagerField =
     (if startsWith packageManagerField ''bun@'' then Some Bun
      else if startsWith packageManagerField ''pnpm@'' then Some Pnpm
      else if startsWith packageManagerField ''yarn@'' then Some Yarn
      else if startsWith packageManagerField ''npm@'' then Some Npm
      else None)"

definition detectLockfiles :: "(string \<Rightarrow> bool) \<Rightarrow> string list" where
  \<comment> \<open>the argument tells which file names exist in the project directory
      (\<open>existsSync(join(projectPath, lockfile))\<close>); of the two bun lockfiles only the first
      one found is added\<close>
  "detectLockfiles existsIn =
     concat (map (\<lambda>pm.
                    (let lockfilesToCheck =
                           (if PackageManagerConfig.name pm = Bun then BUN_LOCKFILES
                            else [PackageManagerConfig.lockfile pm])
                     in case find existsIn lockfilesToCheck of
                          None \<Rightarrow> []
                        | Some l \<Rightarrow> [l]))
                 PACKAGE_MANAGERS)"

definition detectPackageManager ::
  "(string \<Rightarrow> bool) \<Rightarrow> CorepackManifest option \<Rightarrow> PackageManagerInfo" where
  \<comment> \<open>the second argument is the result of \<open>readPackageJson\<close> (\<open>None\<close> for null); the log
      records are not modelled\<close>
  "detectPackageManager existsIn packageJson =
     (let detected = detectLockfiles existsIn;
          spec = (case packageJson of None \<Rightarrow> None | Some pj \<Rightarrow> packageManager pj)
      in case detected of
           [] \<Rightarrow>
             (case (case spec of
                      None \<Rightarrow> None
                    | Some s \<Rightarrow>
                        if s = [] then None
                        else (case parseCorepackSpec s of
                                None \<Rightarrow> None
                              | Some corepackPm \<Rightarrow>
                                  find (\<lambda>pm. PackageManagerConfig.name pm = corepackPm)
                                    PACKAGE_MANAGERS)) of
                Some config \<Rightarrow>
                  \<lparr> PackageManagerInfo.name = PackageManagerConfig.name config,
                    lockfile = None,
                    installCommand = PackageManagerConfig.installCommand config,
                    upgradeCommand = PackageManagerConfig.upgradeCommand config,
                    hasMultipleLockfiles = False, detectedLockfiles = [],
                    corepackSpec = spec \<rparr>
              | None \<Rightarrow> DEFAULT_PACKAGE_MANAGER \<lparr> corepackSpec := spec \<rparr>)
         | primaryLockfile # others \<Rightarrow>
             if primaryLockfile = [] then DEFAULT_PACKAGE_MANAGER \<lparr> corepackSpec := spec \<rparr>
             else
               (let isBunLockfile = (primaryLockfile \<in> set BUN_LOCKFILES) in
                case find (\<lambda>pm. if isBunLockfile then PackageManagerConfig.name pm = Bun
                                 else PackageManagerConfig.lockfile pm = primaryLockfile)
                       PACKAGE_MANAGERS of
                  None \<Rightarrow> DEFAULT_PACKAGE_MANAGER
                            \<lparr> detectedLockfiles := detected, corepackSpec := spec \<rparr>
                | Some config \<Rightarrow>
                    \<lparr> PackageManagerInfo.name = PackageManagerConfig.name config,
                      lockfile = Some primaryLockfile,
                      installCommand = PackageManagerConfig.installCommand config,
                      upgradeCommand = PackageManagerConfig.upgradeCommand config,
                      hasMultipleLockfiles = (length detected > 1),
                      detectedLockfiles = detected,
                      corepackSpec = spec \<rparr>))"

section \<open>Outdated-output normalizer (src/lib/analyzers/deps.ts)\<close>

text \<open>
  The parsers read the text that a package manager printed. \<open>JSON.parse\<close> is a built-in of
  the language, so each parser takes it as its first argument: a function from the text to the
  parsed value, seen through the interface the source casts it to, or to the error it throws
  (\<open>Inl\<close>). An object (a \<open>Record\<close>) is the list of its entries in the order of
  \<open>Object.entries\<close>; its keys are distinct. The interfaces are those the source declares; a
  field that the code never reads is left out, and a field that the code guards with \<open>?.\<close>,
  \<open>??\<close> or a test for presence is optional. A text that parses to a value outside its
  interface is outside the model. The log records are not modelled.

  Each outdated parser returns \<open>Inr\<close> of its list; \<open>Inl\<close> would be an exception leaving
  the parser.
\<close>

definition tryCatch :: "(error + 'a) \<Rightarrow> (error \<Rightarrow> error + 'a) \<Rightarrow> error + 'a" where
  \<comment> \<open>\<open>try { body } catch (error) { handler }\<close>\<close>
  "tryCatch body handler = (case body of Inl e \<Rightarrow> handler e | Inr v \<Rightarrow> Inr v)"

record OutdatedPackage =
  name :: string
  current :: string
  latest :: string
  updateType :: UpdateType
  isDevDep :: bool

record NpmOutdatedEntry =
  \<comment> \<open>also \<open>wanted\<close>, \<open>dependent\<close> and \<open>location\<close>, never read\<close>
  current :: string
  latest :: string

record PnpmOutdatedEntry =
  \<comment> \<open>also \<open>wanted\<close> and \<open>isDeprecated\<close>, never read\<close>
  current :: string
  latest :: string
  dependencyType :: string

record YarnOutdatedData =
  head :: "string list"
  body :: "string list list"

record YarnOutdatedLine =
  \<comment> \<open>a parsed line \<open>{ type: string; data?: unknown }\<close>; \<open>data\<close> is \<open>None\<close> when it is
      absent (reading a property of it then throws)\<close>
  type' :: string
  data :: "YarnOutdatedData option"

definition parseNpmOutdated ::
  "(string \<Rightarrow> error + (string \<times> NpmOutdatedEntry) list) \<Rightarrow> string
     \<Rightarrow> error + OutdatedPackage list" where
  "parseNpmOutdated parse output =
     (if trim output = [] then Inr []
      else
        tryCatch
          (case parse output of
             Inl e \<Rightarrow> Inl e
           | Inr d \<Rightarrow>
               Inr (map (\<lambda>(n, info).
                          \<lparr> OutdatedPackage.name = n,
                            current = NpmOutdatedEntry.current info,
                            latest = NpmOutdatedEntry.latest info,
                            updateType = getUpdateType (NpmOutdatedEntry.current info)
                                           (NpmOutdatedEntry.latest info),
                            isDevDep = False \<rparr>) d))
          (\<lambda>error. Inr []))"

definition parsePnpmOutdated ::
  "(string \<Rightarrow> error + (string \<times> PnpmOutdatedEntry) list) \<Rightarrow> string
     \<Rightarrow> error + OutdatedPackage list" where
  "parsePnpmOutdated parse output =
     (if trim output = [] then Inr []
      else
        tryCatch
          (case parse output of
             Inl e \<Rightarrow> Inl e
           | Inr d \<Rightarrow>
               Inr (map (\<lambda>(n, info).
                          \<lparr> OutdatedPackage.name = n,
                            current = PnpmOutdatedEntry.current info,
                            latest = PnpmOutdatedEntry.latest info,
                            updateType = getUpdateType (PnpmOutdatedEntry.current info)
                                           (PnpmOutdatedEntry.latest info),
                            isDevDep = (dependencyType info = ''devDependencies'') \<rparr>) d))
          (\<lambda>error. Inr []))"

fun indexOf :: "'a list \<Rightarrow> 'a \<Rightarrow> int" where
  \<comment> \<open>\<open>xs.indexOf(y)\<close>: the first position of \<open>y\<close>, or -1\<close>
  "indexOf [] y = - 1"
| "indexOf (x # xs) y =
     (if x = y then 0 else (let i = indexOf xs y in if i = - 1 then - 1 else i + 1))"

definition elemAt :: "'a list \<Rightarrow> int \<Rightarrow> 'a option" where
  \<comment> \<open>\<open>xs[i]\<close>: \<open>None\<close> is undefined, the value out of range\<close>
  "elemAt xs i = (if 0 \<le> i \<and> i < int (length xs) then Some (xs ! nat i) else None)"

definition yarnOutdatedRows :: "YarnOutdatedData \<Rightarrow> OutdatedPackage list" where
  \<comment> \<open>what one table adds to \<open>packages\<close>; a cell that is undefined or empty is falsy\<close>
  "yarnOutdatedRows t =
     (let headers = head t;
          packageIdx = indexOf headers ''Package'';
          currentIdx = indexOf headers ''Current'';
          latestIdx = indexOf headers ''Latest'';
          typeIdx = indexOf headers ''Package Type''
      in if packageIdx = - 1 \<or> currentIdx = - 1 \<or> latestIdx = - 1 then []
         else
           concat (map (\<lambda>row.
                          (let pkgType = (if typeIdx \<noteq> - 1 then elemAt row typeIdx
                                          else Some ''dependencies'')
                           in case (elemAt row packageIdx, elemAt row currentIdx,
                                    elemAt row latestIdx) of
                                (Some n, Some c, Some l) \<Rightarrow>
                                  if n \<noteq> [] \<and> c \<noteq> [] \<and> l \<noteq> [] then
                                    [\<lparr> OutdatedPackage.name = n, current = c, latest = l,
                                       updateType = getUpdateType c l,
                                       isDevDep = (pkgType = Some ''devDependencies'') \<rparr>]
                                  else []
                              | _ \<Rightarrow> []))
                    (body t)))"

definition yarnOutdatedLine ::
  "(string \<Rightarrow> error + YarnOutdatedLine) \<Rightarrow> string \<Rightarrow> error + OutdatedPackage list" where
  \<comment> \<open>the body of the \<open>try\<close> for one line: the packages it adds, or the error thrown before
      any is added\<close>
  "yarnOutdatedLine parse line =
     (case parse line of
        Inl e \<Rightarrow> Inl e
      | Inr parsed \<Rightarrow>
          if type' parsed = ''table'' then
            (case data parsed of
               None \<Rightarrow> Inl TypeError
             | Some t \<Rightarrow> Inr (yarnOutdatedRows t))
          else Inr [])"

definition parseYarnOutdated ::
  "(string \<Rightarrow> error + YarnOutdatedLine) \<Rightarrow> string \<Rightarrow> error + OutdatedPackage list" where
  "parseYarnOutdated parse output =
     (if trim output = [] then Inr []
      else
        foldl (\<lambda>acc line.
                 case acc of
                   Inl e \<Rightarrow> Inl e
                 | Inr packages \<Rightarrow>
                     (case tryCatch (yarnOutdatedLine parse line) (\<lambda>error. Inr []) of
                        Inl e \<Rightarrow> Inl e
                      | Inr added \<Rightarrow> Inr (packages @ added)))
          (Inr []) (splitOn CHR 0x0A (trim output)))"

fun splitAtSub :: "string \<Rightarrow> string \<Rightarrow> (string \<times> string) option" where
  \<comment> \<open>the text before and after the first occurrence of \<open>sub\<close>\<close>
  "splitAtSub sub [] = (if sub = [] then Some ([], []) else None)"
| "splitAtSub sub (x # xs) =
     (if startsWith (x # xs) sub then Some ([], drop (length sub) (x # xs))
      else (case splitAtSub sub xs of None \<Rightarrow> None | Some (b, a) \<Rightarrow> Some (x # b, a)))"

definition stripDev :: "string \<Rightarrow> string" where
  \<comment> \<open>\<open>nameCell.replace(/\s*\(dev\)\s*/, "")\<close>: the first \<open>(dev)\<close> is removed together with
      the white space around it\<close>
  "stripDev nameCell =
     (case splitAtSub ''(dev)'' nameCell of
        None \<Rightarrow> nameCell
      | Some (b, a) \<Rightarrow> rev (dropWhile isSpace (rev b)) @ dropWhile isSpace a)"

definition bunCells :: "string \<Rightarrow> string list" where
  \<comment> \<open>\<open>line.split("|").map((c) => c.trim()).filter((c) => c.length > 0)\<close>\<close>
  "bunCells line = filter (\<lambda>c. length c > 0) (map trim (splitOn CHR ''|'' line))"

definition bunOutdatedRow :: "string \<Rightarrow> OutdatedPackage list" where
  \<comment> \<open>what one line adds to \<open>packages\<close>\<close>
  "bunOutdatedRow line =
     (if \<not> includesStr line ''|'' \<or> includesStr line ''Package'' \<or> includesStr line ''---''
      then []
      else
        (let cells = bunCells line in
         if length cells \<ge> 4 then
           (let nameCell = cells ! 0;
                currentCell = cells ! 1;
                latestCell = cells ! 3
            in if nameCell = [] \<or> currentCell = [] \<or> latestCell = [] then []
               else
                 (let isDev = includesStr nameCell ''(dev)'';
                      n = trim (stripDev nameCell)
                  in if n \<noteq> [] \<and> currentCell \<noteq> [] \<and> latestCell \<noteq> [] then
                       [\<lparr> OutdatedPackage.name = n, current = currentCell, latest = latestCell,
                          updateType = getUpdateType currentCell latestCell,
                          isDevDep = isDev \<rparr>]
                     else []))
         else []))"

definition parseBunOutdated :: "string \<Rightarrow> error + OutdatedPackage list" where
  "parseBunOutdated output = Inr (concat (map bunOutdatedRow (splitOn CHR 0x0A output)))"

section \<open>Audit-output normalizer (src/lib/analyzers/audit.ts)\<close>

datatype Severity = SevCritical | SevHigh | SevModerate | SevLow | SevInfo

record Vulnerability =
  package :: string
  severity :: Severity
  title :: string
  path :: string
  fixAvailable :: bool
  fixVersion :: "string option"

record AuditSummary =
  critical :: int
  high :: int
  moderate :: int
  low :: int
  total :: int

record AuditResult =
  vulnerabilities :: "Vulnerability list"
  summary :: AuditSummary

subsection \<open>The reports as the source declares them\<close>

record NpmVia =
  \<comment> \<open>only \<open>title\<close> is read\<close>
  title :: "string option"

datatype NpmViaEntry = ViaObject NpmVia | ViaString string

record NpmFixInfo =
  \<comment> \<open>also \<open>name\<close> and \<open>isSemVerMajor\<close>, never read\<close>
  version :: string

datatype NpmFixAvailable = FixBool bool | FixInfo NpmFixInfo

record NpmVulnerability =
  \<comment> \<open>also \<open>isDirect\<close>, \<open>range\<close> and \<open>nodes\<close>, never read\<close>
  name :: string
  severity :: string
  via :: "NpmViaEntry list"
  effects :: "string list"
  fixAvailable :: NpmFixAvailable

record NpmVulnerabilityCounts =
  \<comment> \<open>\<open>metadata.vulnerabilities\<close> of npm; also \<open>info\<close>, never read\<close>
  low :: "int option"
  moderate :: "int option"
  high :: "int option"
  critical :: "int option"
  total :: "int option"

record NpmMetadata =
  vulnerabilities :: "NpmVulnerabilityCounts option"

record NpmAuditOutput =
  vulnerabilities :: "(string \<times> NpmVulnerability) list option"
  metadata :: "NpmMetadata option"

record VulnerabilityCounts =
  \<comment> \<open>\<open>metadata.vulnerabilities\<close> of pnpm and \<open>data.vulnerabilities\<close> of the yarn summary:
      the same five counts, without a total\<close>
  info :: "int option"
  low :: "int option"
  moderate :: "int option"
  high :: "int option"
  critical :: "int option"

record PnpmFinding =
  \<comment> \<open>also \<open>version\<close>, never read\<close>
  paths :: "string list option"

record PnpmAdvisory =
  module_name' :: string
  severity :: string
  title :: string
  patched_versions :: "string option"
  findings :: "PnpmFinding list option"

record PnpmMetadata =
  vulnerabilities :: "VulnerabilityCounts option"

record PnpmAuditError =
  code :: string
  message :: string

record PnpmAuditOutput =
  advisories :: "(string \<times> PnpmAdvisory) list option"
  metadata :: "PnpmMetadata option"
  error' :: "PnpmAuditError option"

record YarnResolution =
  \<comment> \<open>only \<open>path\<close> is read\<close>
  path :: string

record YarnAdvisory =
  module_name' :: string
  severity :: string
  title :: string
  patched_versions :: "string option"

record YarnAdvisoryData =
  resolution :: YarnResolution
  advisory :: YarnAdvisory

record YarnSummaryData =
  vulnerabilities :: VulnerabilityCounts

datatype YarnAuditData =
  AdvisoryData YarnAdvisoryData | SummaryData YarnSummaryData | OtherData

record YarnAuditLine =
  \<comment> \<open>a parsed line \<open>{ type: string; data?: unknown }\<close>; \<open>data\<close> seen through the two
      interfaces the source casts it to, \<open>OtherData\<close> when it has neither shape (reading
      it as an advisory or a summary then throws)\<close>
  type' :: string
  data :: YarnAuditData

subsection \<open>Parsers\<close>

definition normalizeSeverity :: "string \<Rightarrow> Severity" where
  "normalizeSeverity sev =
     (let s = toLowerCase sev in
      if s = ''critical'' then SevCritical
      else if s = ''high'' then SevHigh
      else if s = ''moderate'' \<or> s = ''medium'' then SevModerate
      else if s = ''low'' then SevLow
      else SevInfo)"

definition extractNpmFixVersion :: "NpmFixAvailable \<Rightarrow> string option" where
  "extractNpmFixVersion fa =
     (case fa of
        FixInfo fi \<Rightarrow> if version fi \<noteq> [] then Some (version fi) else None
      | FixBool b \<Rightarrow> None)"

fun extractNpmTitle :: "NpmViaEntry list \<Rightarrow> string" where
  "extractNpmTitle [] = ''Unknown vulnerability''"
| "extractNpmTitle (ViaObject v # vs) =
     (case NpmVia.title v of
        Some t \<Rightarrow> if t \<noteq> [] then t else extractNpmTitle vs
      | None \<Rightarrow> extractNpmTitle vs)"
| "extractNpmTitle (ViaString s # vs) = extractNpmTitle vs"

function buildPathRecursive ::
  "(string \<times> NpmVulnerability) list \<Rightarrow> string \<Rightarrow> string set \<Rightarrow> error + string list" where
  \<comment> \<open>the inner function of \<open>buildNpmPath\<close>; \<open>allVulns\<close> is the object it closes over. The
      set is changed in place by the source and read only by the calls below, so it is
      passed down. When \<open>allVulns[name]\<close> is an inherited member, \<open>v.effects\<close> is undefined
      and reading its length throws.\<close>
  "buildPathRecursive allVulns n visited =
     (if n \<in> visited then Inr [n]
      else
        (case getProperty (map_of allVulns) n of
           Absent \<Rightarrow> Inr [n]
         | Inherited \<Rightarrow> Inl TypeError
         | Own v \<Rightarrow>
             (case effects v of
                [] \<Rightarrow> Inr [n]
              | e # es \<Rightarrow>
                  (case buildPathRecursive allVulns e (insert n visited) of
                     Inl err \<Rightarrow> Inl err
                   | Inr parentPath \<Rightarrow> Inr (parentPath @ [n])))))"
  by pat_completeness auto
termination
proof (relation "measure (\<lambda>(allVulns, n, visited). card (fst ` set allVulns - visited))")
  show "wf (measure (\<lambda>(allVulns, n, visited). card (fst ` set allVulns - visited)))"
    by simp
next
  fix allVulns :: "(string \<times> NpmVulnerability) list"
    and n :: string and visited :: "string set" and v e es
  assume fresh: "n \<notin> visited" and own: "getProperty (map_of allVulns) n = Own v"
  from own have found: "map_of allVulns n = Some v"
    by (simp add: getProperty_def split: option.splits if_splits)
  from found have "n \<in> fst ` set allVulns"
    by (metis map_of_eq_None_iff option.distinct(1))
  with fresh have mem: "n \<in> fst ` set allVulns - visited"
    by simp
  have fin: "finite (fst ` set allVulns - visited)"
    by simp
  have "fst ` set allVulns - insert n visited = (fst ` set allVulns - visited) - {n}"
    by auto
  with card_Diff1_less [OF fin mem]
  have "card (fst ` set allVulns - insert n visited) < card (fst ` set allVulns - visited)"
    by simp
  then show "((allVulns, e, insert n visited), (allVulns, n, visited))
             \<in> measure (\<lambda>(allVulns, n, visited). card (fst ` set allVulns - visited))"
    by simp
qed

declare buildPathRecursive.simps [simp del]

definition buildNpmPath ::
  "NpmVulnerability \<Rightarrow> (string \<times> NpmVulnerability) list \<Rightarrow> error + string" where
  "buildNpmPath vuln allVulns =
     (if length (effects vuln) > 0 then
        (case buildPathRecursive allVulns (NpmVulnerability.name vuln) {} of
           Inl err \<Rightarrow> Inl err
         | Inr pathParts \<Rightarrow> Inr (join '' > '' (rev pathParts)))
      else Inr (join '' > '' [NpmVulnerability.name vuln]))"

definition isPassthrough :: "NpmVulnerability \<Rightarrow> bool" where
  \<comment> \<open>the test of the loop of \<open>parseNpmAudit\<close> that skips an entry:
      \<open>vuln.via.some((v) => typeof v === "string") && vuln.via.length === 1\<close>\<close>
  "isPassthrough vuln =
     (list_ex (\<lambda>v. case v of ViaString s \<Rightarrow> True | ViaObject obj \<Rightarrow> False) (via vuln)
      \<and> length (via vuln) = 1)"

definition npmVulnerability ::
  "(string \<times> NpmVulnerability) list \<Rightarrow> NpmVulnerability \<Rightarrow> error + Vulnerability" where
  \<comment> \<open>what the loop of \<open>parseNpmAudit\<close> pushes for an entry it keeps, or the error that
      building the path throws\<close>
  "npmVulnerability vulns vuln =
     (case buildNpmPath vuln vulns of
        Inl err \<Rightarrow> Inl err
      | Inr p \<Rightarrow>
          Inr \<lparr> package = NpmVulnerability.name vuln,
                severity = normalizeSeverity (NpmVulnerability.severity vuln),
                title = extractNpmTitle (via vuln),
                path = p,
                fixAvailable = (NpmVulnerability.fixAvailable vuln \<noteq> FixBool False),
                fixVersion = extractNpmFixVersion (NpmVulnerability.fixAvailable vuln) \<rparr>)"

definition npmVulnerabilities ::
  "(string \<times> NpmVulnerability) list \<Rightarrow> (string \<times> NpmVulnerability) list
     \<Rightarrow> error + Vulnerability list" where
  \<comment> \<open>the loop of \<open>parseNpmAudit\<close> over the entries: the list it has pushed at the end, or
      the error thrown on the way\<close>
  "npmVulnerabilities vulns entries =
     foldl (\<lambda>acc (key, vuln).
              case acc of
                Inl err \<Rightarrow> Inl err
              | Inr pushed \<Rightarrow>
                  if isPassthrough vuln then Inr pushed
                  else (case npmVulnerability vulns vuln of
                          Inl err \<Rightarrow> Inl err
                        | Inr found \<Rightarrow> Inr (pushed @ [found])))
       (Inr []) entries"

definition orZero :: "int option \<Rightarrow> int" where
  \<comment> \<open>\<open>count ?? 0\<close>\<close>
  "orZero c = (case c of None \<Rightarrow> 0 | Some k \<Rightarrow> k)"

definition parseNpmAudit ::
  "(string \<Rightarrow> error + NpmAuditOutput) \<Rightarrow> string \<Rightarrow> AuditResult option" where
  \<comment> \<open>\<open>None\<close> is the result null; an error thrown inside the \<open>try\<close> is caught and gives
      null\<close>
  "parseNpmAudit parse output =
     (if trim output = [] then None
      else
        (case parse output of
           Inl e \<Rightarrow> None
         | Inr d \<Rightarrow>
             (case (case NpmAuditOutput.metadata d of
                      None \<Rightarrow> None
                    | Some md \<Rightarrow> NpmMetadata.vulnerabilities md) of
                None \<Rightarrow> None
              | Some meta \<Rightarrow>
                  (let vulns = (case NpmAuditOutput.vulnerabilities d of
                                  None \<Rightarrow> []
                                | Some vs \<Rightarrow> vs)
                   in case npmVulnerabilities vulns vulns of
                        Inl err \<Rightarrow> None
                      | Inr found \<Rightarrow>
                          Some \<lparr> AuditResult.vulnerabilities = found,
                                 summary =
                                   \<lparr> AuditSummary.critical = orZero (NpmVulnerabilityCounts.critical meta),
                                     high = orZero (NpmVulnerabilityCounts.high meta),
                                     moderate = orZero (NpmVulnerabilityCounts.moderate meta),
                                     low = orZero (NpmVulnerabilityCounts.low meta),
                                     total = orZero (NpmVulnerabilityCounts.total meta) \<rparr> \<rparr>))))"

definition matchVersionAt :: "string \<Rightarrow> string option" where
  \<comment> \<open>\<open>\d+\.\d+\.\d+\<close> at the start of the text. Each run of digits is the longest one: a
      shorter run is followed by a digit, where the expression wants a dot.\<close>
  "matchVersionAt s =
     (case digitsThen s of None \<Rightarrow> None | Some (a, r1) \<Rightarrow>
     (case dotThen r1 of None \<Rightarrow> None | Some r1' \<Rightarrow>
     (case digitsThen r1' of None \<Rightarrow> None | Some (b, r2) \<Rightarrow>
     (case dotThen r2 of None \<Rightarrow> None | Some r2' \<Rightarrow>
     (case digitsThen r2' of None \<Rightarrow> None | Some (c, r3) \<Rightarrow>
        Some (a @ ''.'' @ b @ ''.'' @ c))))))"

fun matchVersion :: "string \<Rightarrow> string option" where
  \<comment> \<open>\<open>s.match(/(\d+\.\d+\.\d+)/)\<close>: the match at the first position that has one, or
      \<open>None\<close> for null\<close>
  "matchVersion [] = None"
| "matchVersion (x # xs) =
     (case matchVersionAt (x # xs) of Some v \<Rightarrow> Some v | None \<Rightarrow> matchVersion xs)"

definition patchedFixVersion :: "string option \<Rightarrow> string option" where
  \<comment> \<open>the fix version that \<open>parsePnpmAudit\<close> and \<open>parseYarnAudit\<close> take from
      \<open>patched_versions\<close> (the same lines in both)\<close>
  "patchedFixVersion patched =
     (case patched of
        None \<Rightarrow> None
      | Some p \<Rightarrow> if p \<noteq> [] \<and> p \<noteq> ''<0.0.0'' then matchVersion p else None)"

definition spaceArrows :: "string \<Rightarrow> string" where
  \<comment> \<open>\<open>p.replace(/>/g, " > ")\<close>\<close>
  "spaceArrows p = concat (map (\<lambda>c. if c = CHR ''>'' then '' > '' else [c]) p)"

definition pnpmVulnerability :: "PnpmAdvisory \<Rightarrow> Vulnerability" where
  \<comment> \<open>what the loop of \<open>parsePnpmAudit\<close> pushes for an advisory\<close>
  "pnpmVulnerability adv =
     (let allPaths = concat (map (\<lambda>finding. case paths finding of None \<Rightarrow> [] | Some ps \<Rightarrow> ps)
                               (case findings adv of None \<Rightarrow> [] | Some fs \<Rightarrow> fs));
          p = (case allPaths of [] \<Rightarrow> PnpmAdvisory.module_name' adv | p0 # ps \<Rightarrow> p0);
          fix = patchedFixVersion (PnpmAdvisory.patched_versions adv)
      in \<lparr> package = PnpmAdvisory.module_name' adv,
           severity = normalizeSeverity (PnpmAdvisory.severity adv),
           title = PnpmAdvisory.title adv,
           path = spaceArrows p,
           fixAvailable = (fix \<noteq> None),
           fixVersion = fix \<rparr>)"

definition countsSummary :: "VulnerabilityCounts \<Rightarrow> AuditSummary" where
  \<comment> \<open>the summary that \<open>parsePnpmAudit\<close> and \<open>parseYarnAudit\<close> build from the reported
      counts (the same lines in both)\<close>
  "countsSummary meta =
     (let t = orZero (VulnerabilityCounts.critical meta) + orZero (VulnerabilityCounts.high meta)
              + orZero (VulnerabilityCounts.moderate meta) + orZero (VulnerabilityCounts.low meta)
              + orZero (info meta)
      in \<lparr> AuditSummary.critical = orZero (VulnerabilityCounts.critical meta),
           high = orZero (VulnerabilityCounts.high meta),
           moderate = orZero (VulnerabilityCounts.moderate meta),
           low = orZero (VulnerabilityCounts.low meta),
           total = t \<rparr>)"

definition parsePnpmAudit ::
  "(string \<Rightarrow> error + PnpmAuditOutput) \<Rightarrow> string \<Rightarrow> AuditResult option" where
  "parsePnpmAudit parse output =
     (if trim output = [] then None
      else
        (case parse output of
           Inl e \<Rightarrow> None
         | Inr d \<Rightarrow>
             if error' d \<noteq> None then None
             else
               (case (case PnpmAuditOutput.metadata d of
                        None \<Rightarrow> None
                      | Some md \<Rightarrow> PnpmMetadata.vulnerabilities md) of
                  None \<Rightarrow> None
                | Some meta \<Rightarrow>
                    (let advs = (case advisories d of None \<Rightarrow> [] | Some as \<Rightarrow> as)
                     in Some \<lparr> AuditResult.vulnerabilities =
                                 map (\<lambda>(key, adv). pnpmVulnerability adv) advs,
                               summary = countsSummary meta \<rparr>))))"

definition yarnVulnerability :: "YarnAdvisoryData \<Rightarrow> Vulnerability" where
  \<comment> \<open>what the loop of \<open>parseYarnAudit\<close> pushes for an advisory line\<close>
  "yarnVulnerability d =
     (let adv = advisory d;
          fix = patchedFixVersion (YarnAdvisory.patched_versions adv)
      in \<lparr> package = YarnAdvisory.module_name' adv,
           severity = normalizeSeverity (YarnAdvisory.severity adv),
           title = YarnAdvisory.title adv,
           path = spaceArrows (YarnResolution.path (resolution d)),
           fixAvailable = (fix \<noteq> None),
           fixVersion = fix \<rparr>)"

definition yarnAuditLine ::
  "(string \<Rightarrow> error + YarnAuditLine) \<Rightarrow> Vulnerability list \<times> AuditSummary option \<Rightarrow> string
     \<Rightarrow> Vulnerability list \<times> AuditSummary option" where
  \<comment> \<open>one turn of the loop of \<open>parseYarnAudit\<close> on the state \<open>(vulnerabilities, summary)\<close>;
      an exception in the \<open>try\<close> is thrown before the state changes, and caught\<close>
  "yarnAuditLine parse st line =
     (case parse line of
        Inl e \<Rightarrow> st
      | Inr parsed \<Rightarrow>
          if YarnAuditLine.type' parsed = ''auditAdvisory'' then
            (case YarnAuditLine.data parsed of
               AdvisoryData d \<Rightarrow> (fst st @ [yarnVulnerability d], snd st)
             | _ \<Rightarrow> st)
          else if YarnAuditLine.type' parsed = ''auditSummary'' then
            (case YarnAuditLine.data parsed of
               SummaryData sd \<Rightarrow> (fst st, Some (countsSummary (YarnSummaryData.vulnerabilities sd)))
             | _ \<Rightarrow> st)
          else st)"

definition countSeverity :: "Severity \<Rightarrow> Vulnerability list \<Rightarrow> int" where
  \<comment> \<open>\<open>vulnerabilities.filter((v) => v.severity === sev).length\<close>\<close>
  "countSeverity sev vs = int (length (filter (\<lambda>v. Vulnerability.severity v = sev) vs))"

definition parseYarnAudit ::
  "(string \<Rightarrow> error + YarnAuditLine) \<Rightarrow> string \<Rightarrow> AuditResult option" where
  "parseYarnAudit parse output =
     (if trim output = [] then None
      else
        (case foldl (yarnAuditLine parse) ([], None) (splitOn CHR 0x0A (trim output)) of
           (found, Some s) \<Rightarrow> Some \<lparr> AuditResult.vulnerabilities = found, summary = s \<rparr>
         | (found, None) \<Rightarrow>
             if length found = 0 then None
             else Some \<lparr> AuditResult.vulnerabilities = found,
                         summary =
                           \<lparr> AuditSummary.critical = countSeverity SevCritical found,
                             high = countSeverity SevHigh found,
                             moderate = countSeverity SevModerate found,
                             low = countSeverity SevLow found,
                             total = int (length found) \<rparr> \<rparr>))"

subsection \<open>The invariants that the data model states\<close>

definition summaryInvariant :: "AuditSummary \<Rightarrow> bool" where
  \<comment> \<open>the data model's invariant of a summary: no count is negative and the total is at
      least the sum of the four tracked severities\<close>
  "summaryInvariant s =
     (0 \<le> AuditSummary.critical s \<and> 0 \<le> AuditSummary.high s \<and> 0 \<le> AuditSummary.moderate s
      \<and> 0 \<le> AuditSummary.low s \<and> 0 \<le> AuditSummary.total s
      \<and> AuditSummary.critical s + AuditSummary.high s + AuditSummary.moderate s
          + AuditSummary.low s \<le> AuditSummary.total s)"

definition countsNonNegative :: "VulnerabilityCounts \<Rightarrow> bool" where
  \<comment> \<open>no count that a pnpm or yarn report gives is negative\<close>
  "countsNonNegative meta =
     (0 \<le> orZero (VulnerabilityCounts.critical meta) \<and> 0 \<le> orZero (VulnerabilityCounts.high meta)
      \<and> 0 \<le> orZero (VulnerabilityCounts.moderate meta) \<and> 0 \<le> orZero (VulnerabilityCounts.low meta)
      \<and> 0 \<le> orZero (info meta))"

definition fixConsistent :: "Vulnerability \<Rightarrow> bool" where
  \<comment> \<open>a fix is reported as available exactly when a fix version is given\<close>
  "fixConsistent v = (Vulnerability.fixAvailable v = (fixVersion v \<noteq> None))"

section \<open>Lemmas: splitting texts and runs of digits\<close>

lemma not_isDigit_dot [simp]: "\<not> isDigit CHR ''.''"
  by (simp add: isDigit_def)

lemma digitsThen_SomeD:
  assumes "digitsThen s = Some (a, r)"
  shows "s = a @ r \<and> a \<noteq> [] \<and> list_all isDigit a"
proof -
  from assms have a: "a = takeWhile isDigit s" and r: "r = dropWhile isDigit s" and ne: "a \<noteq> []"
    by (auto simp: digitsThen_def Let_def split: if_splits)
  have "list_all isDigit (takeWhile isDigit s)"
    by (simp add: list_all_iff) (meson set_takeWhileD)
  with a r ne show ?thesis by simp
qed

lemma dotThen_SomeD: "dotThen s = Some r \<Longrightarrow> s = CHR ''.'' # r"
  by (auto simp: dotThen_def split: list.splits if_splits)

lemma digitsThen_iff:
  "digitsThen s = Some (a, r)
     \<longleftrightarrow> s = a @ r \<and> digitRun a \<and> (r = [] \<or> \<not> isDigit (hd r))"
proof
  assume h: "digitsThen s = Some (a, r)"
  then have a: "a = takeWhile isDigit s" and r: "r = dropWhile isDigit s" and ne: "a \<noteq> []"
    by (auto simp: digitsThen_def Let_def split: if_splits)
  have "list_all isDigit (takeWhile isDigit s)"
    by (simp add: list_all_iff) (meson set_takeWhileD)
  moreover have "dropWhile isDigit s = [] \<or> \<not> isDigit (hd (dropWhile isDigit s))"
    by (metis hd_dropWhile)
  ultimately show "s = a @ r \<and> digitRun a \<and> (r = [] \<or> \<not> isDigit (hd r))"
    using a r ne by (simp add: digitRun_def)
next
  assume h: "s = a @ r \<and> digitRun a \<and> (r = [] \<or> \<not> isDigit (hd r))"
  then have all: "\<forall>x\<in>set a. isDigit x" and ne: "a \<noteq> []"
    by (simp_all add: digitRun_def list_all_iff)
  from h have stop: "takeWhile isDigit r = []" by (cases r) auto
  then have "dropWhile isDigit r = r" by (metis takeWhile_dropWhile_id append_Nil)
  with all stop h have "takeWhile isDigit s = a" "dropWhile isDigit s = r"
    by (simp_all add: takeWhile_append2 dropWhile_append2)
  with ne show "digitsThen s = Some (a, r)" by (simp add: digitsThen_def Let_def)
qed

lemma splitOn_nonempty [simp]: "splitOn c s \<noteq> []"
  by (induction s) (auto split: list.splits)

lemma join_Cons: "ps \<noteq> [] \<Longrightarrow> join sep (p # ps) = p @ sep @ join sep ps"
  by (cases ps) simp_all

lemma join_Cons_head: "join sep ((x # p) # ps) = x # join sep (p # ps)"
  by (cases ps) simp_all

lemma join_splitOn: "join [c] (splitOn c s) = s"
proof (induction s)
  case Nil
  show ?case by simp
next
  case (Cons x xs)
  show ?case
  proof (cases "x = c")
    case True
    with Cons show ?thesis by (simp add: join_Cons)
  next
    case False
    obtain p ps where sp: "splitOn c xs = p # ps" by (cases "splitOn c xs") simp_all
    with Cons False show ?thesis by (simp add: join_Cons_head)
  qed
qed

lemma splitOn_no_sep: "c \<notin> set p \<Longrightarrow> splitOn c p = [p]"
  by (induction p) auto

lemma splitOn_append_sep: "c \<notin> set p \<Longrightarrow> splitOn c (p @ c # r) = p # splitOn c r"
  by (induction p) auto

lemma splitOn_join:
  "ids \<noteq> [] \<Longrightarrow> \<forall>i \<in> set ids. c \<notin> set i \<Longrightarrow> splitOn c (join [c] ids) = ids"
proof (induction ids)
  case Nil
  then show ?case by simp
next
  case (Cons p ps)
  show ?case
  proof (cases "ps = []")
    case True
    with Cons.prems show ?thesis by (simp add: splitOn_no_sep)
  next
    case False
    with Cons have "splitOn c (join [c] ps) = ps" by simp
    with False Cons.prems show ?thesis by (simp add: join_Cons splitOn_append_sep)
  qed
qed

lemma set_join: "set (join sep ids) \<subseteq> set sep \<union> \<Union> (set ` set ids)"
  by (induction sep ids rule: join.induct) auto

lemma not_isIdentChar_dot [simp]: "\<not> isIdentChar CHR ''.''"
  by (simp add: isIdentChar_def)

lemma not_isIdentChar_plus [simp]: "\<not> isIdentChar CHR ''+''"
  by (simp add: isIdentChar_def)

lemma identifiers_iff: "identifiers s = identifierList s"
proof
  assume "identifiers s"
  then have "\<forall>i \<in> set (splitOn CHR ''.'' s). i \<noteq> [] \<and> (\<forall>c \<in> set i. isIdentChar c)"
    by (simp add: identifiers_def list_all_iff)
  moreover have "s = join ''.'' (splitOn CHR ''.'' s)" by (simp add: join_splitOn)
  ultimately show "identifierList s"
    unfolding identifierList_def list_all_iff using splitOn_nonempty by blast
next
  assume "identifierList s"
  then obtain ids where ne: "ids \<noteq> []"
    and ok: "\<forall>i \<in> set ids. i \<noteq> [] \<and> (\<forall>c \<in> set i. isIdentChar c)"
    and s: "s = join ''.'' ids"
    unfolding identifierList_def list_all_iff by blast
  from ok have "\<forall>i \<in> set ids. CHR ''.'' \<notin> set i" using not_isIdentChar_dot by blast
  with ne s have "splitOn CHR ''.'' s = ids" by (simp add: splitOn_join)
  with ok show "identifiers s" by (simp add: identifiers_def list_all_iff)
qed

lemma identifierList_no_plus:
  assumes "identifierList s"
  shows "CHR ''+'' \<notin> set s"
proof
  assume mem: "CHR ''+'' \<in> set s"
  from assms obtain ids where
    ok: "\<forall>i \<in> set ids. i \<noteq> [] \<and> (\<forall>c \<in> set i. isIdentChar c)" and s: "s = join ''.'' ids"
    unfolding identifierList_def list_all_iff by blast
  from mem s set_join [of "''.''" ids] have "CHR ''+'' \<in> \<Union> (set ` set ids)" by auto
  with ok show False using not_isIdentChar_plus by blast
qed

lemma matchBuild_iff:
  "matchBuild s = Some bld
     \<longleftrightarrow> s = optionalTag CHR ''+'' bld \<and> tagOk bld"
  by (cases s; cases bld)
     (auto simp: matchBuild_def optionalTag_def tagOk_def identifiers_iff)

lemma matchTail_iff:
  "matchTail s = Some (pre, bld)
     \<longleftrightarrow> s = optionalTag CHR ''-'' pre @ optionalTag CHR ''+'' bld
         \<and> tagOk pre
         \<and> tagOk bld"
proof (cases s)
  case Nil
  then show ?thesis
    by (cases pre; cases bld) (auto simp: matchTail_def matchBuild_def optionalTag_def tagOk_def)
next
  case (Cons c r)
  show ?thesis
  proof (cases "c = CHR ''-''")
    case False
    have "matchTail s = Some (pre, bld) \<longleftrightarrow> pre = None \<and> matchBuild s = Some bld"
      using Cons False by (auto simp: matchTail_def split: option.splits)
    also have "\<dots> \<longleftrightarrow> pre = None \<and> s = optionalTag CHR ''+'' bld
                           \<and> tagOk bld"
      by (simp add: matchBuild_iff)
    also have "\<dots> \<longleftrightarrow> s = optionalTag CHR ''-'' pre @ optionalTag CHR ''+'' bld
         \<and> tagOk pre
         \<and> tagOk bld"
      using Cons False by (cases pre) (auto simp: optionalTag_def tagOk_def)
    finally show ?thesis .
  next
    case True
    let ?p = "takeWhile (\<lambda>x. x \<noteq> CHR ''+'') r"
    let ?rest = "dropWhile (\<lambda>x. x \<noteq> CHR ''+'') r"
    have split: "r = ?p @ ?rest" by simp
    have rest: "?rest = [] \<or> hd ?rest = CHR ''+''" by (metis (mono_tags, lifting) hd_dropWhile)
    have l: "matchTail s = Some (pre, bld)
               \<longleftrightarrow> pre = Some ?p \<and> identifierList ?p \<and> matchBuild ?rest = Some bld"
      using Cons True by (auto simp: matchTail_def Let_def identifiers_iff split: option.splits)
    show ?thesis
    proof
      assume "matchTail s = Some (pre, bld)"
      with l have pre: "pre = Some ?p" and idp: "identifierList ?p"
        and mb: "matchBuild ?rest = Some bld" by simp_all
      from mb have rb: "?rest = optionalTag CHR ''+'' bld" and tb: "tagOk bld"
        by (simp_all add: matchBuild_iff)
      from split rb have "r = ?p @ optionalTag CHR ''+'' bld" by simp
      with pre idp tb Cons True show "s = optionalTag CHR ''-'' pre @ optionalTag CHR ''+'' bld
         \<and> tagOk pre
         \<and> tagOk bld"
        by (simp add: optionalTag_def tagOk_def)
    next
      assume h: "s = optionalTag CHR ''-'' pre @ optionalTag CHR ''+'' bld
         \<and> tagOk pre
         \<and> tagOk bld"
      from h Cons True obtain p where pre: "pre = Some p"
        by (cases pre; cases bld) (auto simp: optionalTag_def)
      with h have idp: "identifierList p" by (simp add: tagOk_def)
      from h pre Cons have r: "r = p @ optionalTag CHR ''+'' bld" by (simp add: optionalTag_def)
      from identifierList_no_plus [OF idp] have np: "\<forall>x \<in> set p. x \<noteq> CHR ''+''" by blast
      have tw: "?p = p" and dw: "?rest = optionalTag CHR ''+'' bld"
        using np r by (cases bld; simp add: optionalTag_def takeWhile_append2 dropWhile_append2)+
      from h have "matchBuild (optionalTag CHR ''+'' bld) = Some bld"
        by (simp add: matchBuild_iff)
      with l tw dw pre idp show "matchTail s = Some (pre, bld)" by simp
    qed
  qed
qed

lemma digitsThen_dot:
  assumes "a \<noteq> []" "list_all isDigit a"
  shows "digitsThen (a @ CHR ''.'' # r) = Some (a, CHR ''.'' # r)"
proof -
  from assms(2) have all: "\<forall>x\<in>set a. isDigit x" by (simp add: list_all_iff)
  then have "takeWhile isDigit (a @ CHR ''.'' # r) = a"
    by (simp add: takeWhile_append2)
  moreover from all have "dropWhile isDigit (a @ CHR ''.'' # r) = CHR ''.'' # r"
    by (simp add: dropWhile_append2)
  ultimately show ?thesis using assms(1) by (simp add: digitsThen_def Let_def)
qed

lemma digitsThen_prefix:
  assumes "c \<noteq> []" "list_all isDigit c"
  shows "digitsThen (c @ post) \<noteq> None"
proof -
  from assms(2) have "\<forall>x\<in>set c. isDigit x" by (simp add: list_all_iff)
  then have "takeWhile isDigit (c @ post) = c @ takeWhile isDigit post"
    by (simp add: takeWhile_append2)
  with assms(1) show ?thesis by (simp add: digitsThen_def Let_def)
qed

section \<open>Theorems: version comparator\<close>

text \<open>
  \<open>parseSemver\<close> accepts exactly the texts of the version grammar, and its components are
  the Number values of the three digit runs (\<open>parseSemver_Some_iff\<close>,
  \<open>parseSemver_None_iff\<close>).
\<close>

lemma not_isDigit_marks [simp]: "\<not> isDigit CHR ''-''" "\<not> isDigit CHR ''+''" "\<not> isDigit CHR ''v''"
  by (simp_all add: isDigit_def)

lemma tags_start:
  "optionalTag CHR ''-'' pre @ optionalTag CHR ''+'' bld = []
   \<or> \<not> isDigit (hd (optionalTag CHR ''-'' pre @ optionalTag CHR ''+'' bld))"
  by (cases pre; cases bld) (simp_all add: optionalTag_def)

lemma parseSemver_complete:
  assumes "semverText s a b c pre bld"
  shows "parseSemver s = Some \<lparr> major = parseInt a, minor = parseInt b, patch = parseInt c,
                                 prerelease = pre, build = bld \<rparr>"
proof -
  let ?t = "optionalTag CHR ''-'' pre @ optionalTag CHR ''+'' bld"
  let ?core = "a @ CHR ''.'' # b @ CHR ''.'' # c @ ?t"
  from assms have da: "digitRun a" and db: "digitRun b" and dc: "digitRun c"
    and tp: "tagOk pre" and tb: "tagOk bld" and s: "s = ?core \<or> s = CHR ''v'' # ?core"
    by (simp_all add: semverText_def Let_def)
  from da obtain x xs where a: "a = x # xs" and x: "isDigit x"
    by (cases a) (simp_all add: digitRun_def)
  then have "x \<noteq> CHR ''v''" by auto
  with s a have cleaned:
    "(case s of [] \<Rightarrow> [] | c # r \<Rightarrow> if c = CHR ''v'' then r else s) = ?core"
    by auto
  have 1: "digitsThen ?core = Some (a, CHR ''.'' # b @ CHR ''.'' # c @ ?t)"
    using da by (simp add: digitsThen_iff)
  have 2: "digitsThen (b @ CHR ''.'' # c @ ?t) = Some (b, CHR ''.'' # c @ ?t)"
    using db by (simp add: digitsThen_iff)
  have 3: "digitsThen (c @ ?t) = Some (c, ?t)"
    using dc tags_start [of pre bld] by (simp add: digitsThen_iff)
  have 4: "matchTail ?t = Some (pre, bld)"
    using tp tb by (simp add: matchTail_iff)
  show ?thesis
    unfolding parseSemver_def Let_def cleaned using 1 2 3 4 by (simp add: dotThen_def)
qed













lemma getUpdateType_of_texts:
  assumes cur: "semverText cur a b c pre bld" and lat: "semverText lat a' b' c' pre' bld'"
    and small: "decimalValue a < 2 ^ 53" "decimalValue b < 2 ^ 53" "decimalValue c < 2 ^ 53"
      "decimalValue a' < 2 ^ 53" "decimalValue b' < 2 ^ 53" "decimalValue c' < 2 ^ 53"
  shows "getUpdateType cur lat =
           (if decimalValue a' = decimalValue a \<and> decimalValue b' = decimalValue b
               \<and> decimalValue c' = decimalValue c then NoUpdate
            else if decimalValue a < decimalValue a' then Major
            else if decimalValue a' = decimalValue a \<and> decimalValue b < decimalValue b' then Minor
            else if decimalValue a' = decimalValue a \<and> decimalValue b' = decimalValue b
                    \<and> decimalValue c < decimalValue c' then Patch
            else NoUpdate)"
  using small
  by (simp add: getUpdateType_def parseSemver_complete [OF cur] parseSemver_complete [OF lat]
        parseInt_def toDouble_def)



section \<open>Theorems: risk scorer\<close>

lemma scoreUpdateType_range: "0 \<le> RiskFactor.score (scoreUpdateType t) \<and> RiskFactor.score (scoreUpdateType t) \<le> 40"
  by (cases t) (simp_all add: scoreUpdateType_def)

lemma scoreUsageScope_range: "0 \<le> RiskFactor.score (scoreUsageScope n) \<and> RiskFactor.score (scoreUsageScope n) \<le> 30"
  by (simp add: scoreUsageScope_def)

lemma scoreCriticalPaths_range: "0 \<le> RiskFactor.score (scoreCriticalPaths ps) \<and> RiskFactor.score (scoreCriticalPaths ps) \<le> 20"
  by (simp add: scoreCriticalPaths_def Let_def)

lemma scoreTestCoverage_range: "0 \<le> RiskFactor.score (scoreTestCoverage c) \<and> RiskFactor.score (scoreTestCoverage c) \<le> 10"
  by (simp add: scoreTestCoverage_def)

lemma getRiskLevel_thresholds:
  "(getRiskLevel s = RiskLow \<longleftrightarrow> s \<le> 25)
   \<and> (getRiskLevel s = RiskMedium \<longleftrightarrow> 26 \<le> s \<and> s \<le> 50)
   \<and> (getRiskLevel s = RiskHigh \<longleftrightarrow> 51 \<le> s \<and> s \<le> 75)
   \<and> (getRiskLevel s = RiskCritical \<longleftrightarrow> 76 \<le> s)"
  by (auto simp: getRiskLevel_def)

lemma assessRisk_Inr:
  assumes "assessRisk env packageName options = Inr r"
  obtains fromV toV filePaths where
    "factors r = \<lparr> RiskFactors.updateType = scoreUpdateType (getUpdateType fromV toV),
                   usageScope = scoreUsageScope (int (length filePaths)),
                   criticalPaths = scoreCriticalPaths filePaths,
                   RiskFactors.testCoverage = scoreTestCoverage (calculateTestCoverage (fileExists env) filePaths (cwd env)) \<rparr>"
    "riskScore r = RiskFactor.score (RiskFactors.updateType (factors r)) + RiskFactor.score (usageScope (factors r))
                       + RiskFactor.score (criticalPaths (factors r)) + RiskFactor.score (RiskFactors.testCoverage (factors r))"
    "riskLevel r = getRiskLevel (riskScore r)"
  using assms
  by (auto simp: assessRisk_def Let_def split: option.splits sum.splits if_splits)

text \<open>
  Claim C9. Every assessment that \<open>assessRisk\<close> returns has a \<open>riskScore\<close> equal to the plain
  sum of its four factor scores, between 0 and 100, and a \<open>riskLevel\<close> that is low exactly
  for the scores 0 to 25, medium for 26 to 50, high for 51 to 75 and critical for 76 to 100;
  at the boundaries, 25 is low, 26 and 50 are medium, 51 and 75 are high, 76 is critical.
\<close>

theorem assessRisk_score_and_level:
  assumes "assessRisk env packageName options = Inr r"
  shows "riskScore r = RiskFactor.score (RiskFactors.updateType (factors r))
                       + RiskFactor.score (usageScope (factors r))
                       + RiskFactor.score (criticalPaths (factors r))
                       + RiskFactor.score (RiskFactors.testCoverage (factors r))
       \<and> 0 \<le> riskScore r \<and> riskScore r \<le> 100
       \<and> (riskLevel r = RiskLow \<longleftrightarrow> 0 \<le> riskScore r \<and> riskScore r \<le> 25)
       \<and> (riskLevel r = RiskMedium \<longleftrightarrow> 26 \<le> riskScore r \<and> riskScore r \<le> 50)
       \<and> (riskLevel r = RiskHigh \<longleftrightarrow> 51 \<le> riskScore r \<and> riskScore r \<le> 75)
       \<and> (riskLevel r = RiskCritical \<longleftrightarrow> 76 \<le> riskScore r \<and> riskScore r \<le> 100)
       \<and> getRiskLevel 25 = RiskLow \<and> getRiskLevel 26 = RiskMedium
       \<and> getRiskLevel 50 = RiskMedium \<and> getRiskLevel 51 = RiskHigh
       \<and> getRiskLevel 75 = RiskHigh \<and> getRiskLevel 76 = RiskCritical"
proof -
  from assms obtain fromV toV filePaths where
    f: "factors r = \<lparr> RiskFactors.updateType = scoreUpdateType (getUpdateType fromV toV),
                   usageScope = scoreUsageScope (int (length filePaths)),
                   criticalPaths = scoreCriticalPaths filePaths,
                   RiskFactors.testCoverage = scoreTestCoverage (calculateTestCoverage (fileExists env) filePaths (cwd env)) \<rparr>"
    and s: "riskScore r = RiskFactor.score (RiskFactors.updateType (factors r)) + RiskFactor.score (usageScope (factors r))
                       + RiskFactor.score (criticalPaths (factors r)) + RiskFactor.score (RiskFactors.testCoverage (factors r))"
    and l: "riskLevel r = getRiskLevel (riskScore r)"
    by (rule assessRisk_Inr)
  have range: "0 \<le> riskScore r \<and> riskScore r \<le> 100"
    using scoreUpdateType_range [of "getUpdateType fromV toV"]
      scoreUsageScope_range [of "int (length filePaths)"]
      scoreCriticalPaths_range [of filePaths]
      scoreTestCoverage_range [of "calculateTestCoverage (fileExists env) filePaths (cwd env)"]
    unfolding s f by simp
  have lv: "getRiskLevel 25 = RiskLow \<and> getRiskLevel 26 = RiskMedium
       \<and> getRiskLevel 50 = RiskMedium \<and> getRiskLevel 51 = RiskHigh
       \<and> getRiskLevel 75 = RiskHigh \<and> getRiskLevel 76 = RiskCritical"
    by (simp add: getRiskLevel_def)
  show ?thesis
    using s range lv getRiskLevel_thresholds [of "riskScore r"] unfolding l by auto
qed


theorem assessRisk_score_and_level_witness:
  "assessRisk
     \<lparr> manifest = None, exec = (\<lambda>c a. Inl (Error ''spawn'')),
       analyzeImports = (\<lambda>p. Inr [''src/api/users.ts'', ''src/auth/middleware.ts'']),
       fileExists = (\<lambda>p. False), cwd = ''.'' \<rparr>
     ''lodash'' \<lparr> fromVersion = Some ''1.0.0'', toVersion = Some ''2.0.0'' \<rparr>
   = Inr \<lparr> RiskAssessment.package = ''lodash'', from' = ''1.0.0'', to' = ''2.0.0'',
            RiskAssessment.updateType = Major, riskScore = 80, riskLevel = RiskCritical,
            factors =
              \<lparr> RiskFactors.updateType = \<lparr> RiskFactor.score = 40, reason = ''Major version bump'' \<rparr>,
                usageScope = \<lparr> RiskFactor.score = 10, reason = ''Used in 2 files'' \<rparr>,
                criticalPaths = \<lparr> RiskFactor.score = 20,
                                  reason = ''Used in API routes and middleware and auth'' \<rparr>,
                RiskFactors.testCoverage = \<lparr> RiskFactor.score = 10, reason = ''No importing files have tests'' \<rparr> \<rparr>,
            recommendations =
              [''Review lodash migration guide'', ''Run full test suite after upgrade'',
               ''Test API routes manually'', ''Verify auth flows'',
               ''Check middleware compatibility'', ''Add tests before upgrading''] \<rparr>
   \<and> (80::int) = 40 + 10 + 20 + 10 \<and> getRiskLevel 76 = RiskCritical"
  (is "?run = Inr ?r \<and> _")
proof -
  have run: "?run = Inr ?r" by code_simp
  from assessRisk_score_and_level [OF run] show ?thesis using run by simp
qed

section \<open>Theorems: quality metric calculators\<close>

lemma jsRound_percent_range:
  assumes "0 \<le> x" "x \<le> 100"
  shows "0 \<le> jsRound x \<and> jsRound x \<le> 100"
proof -
  have "0 \<le> \<lfloor>x + 1 / 2\<rfloor>" using assms(1) by simp
  moreover have "x + 1 / 2 < 101" using assms(2) by simp
  then have "\<lfloor>x + 1 / 2\<rfloor> < 101" by (simp add: floor_less_iff)
  ultimately show ?thesis by (simp add: jsRound_def)
qed

lemma freshness_fraction_range:
  fixes t' out :: int
  assumes "0 \<le> out" "out \<le> t'" "t' \<noteq> 0"
  shows "0 \<le> (of_int (t' - out) / of_int t' * 100 :: rat) \<and> (of_int (t' - out) / of_int t' * 100 :: rat) \<le> 100"
proof -
  define q :: rat where "q = of_int (t' - out) / of_int t'"
  have pos: "(0::rat) < of_int t'" using assms by simp
  have a: "(0::rat) \<le> of_int (t' - out)" using assms by simp
  have b: "(of_int (t' - out) :: rat) \<le> of_int t'" using assms by simp
  have "q \<le> 1" unfolding q_def using pos b by (simp add: divide_le_eq)
  moreover have "0 \<le> q" unfolding q_def using pos a by simp
  ultimately have "0 \<le> q * 100 \<and> q * 100 \<le> 100" by simp
  then show ?thesis unfolding q_def .
qed

lemma freshness_score_range:
  assumes "0 \<le> outdated" "outdated \<le> total'"
  shows "\<exists>k :: int. MetricBreakdown.score (calculateDependencyFreshnessScore total' outdated) = of_int k \<and> 0 \<le> k \<and> k \<le> 100"
proof (cases "total' = 0")
  case True
  then show ?thesis by (auto simp: calculateDependencyFreshnessScore_def intro: exI [of _ 100])
next
  case False
  from freshness_fraction_range [OF assms False]
  have "0 \<le> jsRound (of_int (total' - outdated) / of_int total' * 100)
        \<and> jsRound (of_int (total' - outdated) / of_int total' * 100) \<le> 100"
    by (intro jsRound_percent_range) auto
  with False show ?thesis by (auto simp: calculateDependencyFreshnessScore_def Let_def)
qed

lemma security_score_range:
  assumes "0 \<le> c" "0 \<le> h" "0 \<le> m" "0 \<le> l"
  shows "\<exists>k :: int. MetricBreakdown.score (calculateSecurityScore c h m l) = of_int k \<and> 0 \<le> k \<and> k \<le> 100"
proof (cases "c + h + m + l = 0")
  case True
  then show ?thesis by (auto simp: calculateSecurityScore_def intro: exI [of _ 100])
next
  case False
  have "0 \<le> max 0 (100 - (c * 25 + h * 15 + m * 5 + l * 2))
        \<and> max 0 (100 - (c * 25 + h * 15 + m * 5 + l * 2)) \<le> 100"
    using assms by auto
  with False show ?thesis by (auto simp: calculateSecurityScore_def Let_def)
qed

lemma deadCode_score_values:
  "MetricBreakdown.score (calculateDeadCodeScore a b) = (if a \<and> b then 100 else if a \<or> b then 75 else 50)"
  by (simp add: calculateDeadCodeScore_def Let_def)

text \<open>
  Claim C8, as the code has it. \<open>calculateDependencyFreshnessScore\<close> gives an integer score
  between 0 and 100 whenever \<open>0 \<le> outdated \<le> total\<close>; \<open>calculateSecurityScore\<close> gives one
  for all non-negative counts; \<open>calculateDeadCodeScore\<close> gives 50, 75 or 100. The other three
  calculators hand on the number they are given (0 when there is no coverage data or no
  tsconfig), so their score is an integer between 0 and 100 exactly when that number is.
  The counterexample after the witness shows the scores outside this: a freshness score of
  -150 for 5 outdated packages of 2, and the passed-on scores 85.5, 120 and -1.
\<close>

theorem metric_scores_in_range:
  "(0 \<le> outdated \<and> outdated \<le> total' \<longrightarrow>
      (\<exists>k :: int. MetricBreakdown.score (calculateDependencyFreshnessScore total' outdated) = of_int k
                   \<and> 0 \<le> k \<and> k \<le> 100))
   \<and> (0 \<le> nCritical \<and> 0 \<le> nHigh \<and> 0 \<le> nModerate \<and> 0 \<le> nLow \<longrightarrow>
      (\<exists>k :: int. MetricBreakdown.score (calculateSecurityScore nCritical nHigh nModerate nLow) = of_int k
                   \<and> 0 \<le> k \<and> k \<le> 100))
   \<and> MetricBreakdown.score (calculateDeadCodeScore noUnusedLocals noUnusedParameters)
        = (if noUnusedLocals \<and> noUnusedParameters then 100
           else if noUnusedLocals \<or> noUnusedParameters then 75 else 50)
   \<and> MetricBreakdown.score (calculateTestCoverageScore numberText found percentage)
        = (case percentage of None \<Rightarrow> 0 | Some p \<Rightarrow> if found then p else 0)
   \<and> MetricBreakdown.score (calculateTypescriptStrictnessScore exists tsconfigScore d1)
        = (if exists then tsconfigScore else 0)
   \<and> MetricBreakdown.score (calculateLintingScore lintingScore d2) = lintingScore"
  using freshness_score_range [of outdated total'] security_score_range [of nCritical nHigh nModerate nLow]
    deadCode_score_values [of noUnusedLocals noUnusedParameters]
  by (simp add: calculateTestCoverageScore_def calculateTypescriptStrictnessScore_def
      calculateLintingScore_def split: option.splits)

theorem metric_scores_in_range_witness:
  "(0::int) \<le> 3 \<and> (3::int) \<le> 10
   \<and> MetricBreakdown.score (calculateDependencyFreshnessScore 10 3) = 70
   \<and> MetricBreakdown.score (calculateSecurityScore 1 2 3 4) = 22
   \<and> MetricBreakdown.score (calculateSecurityScore 5 0 0 0) = 0
   \<and> MetricBreakdown.score (calculateDeadCodeScore True False) = 75"
proof -
  have a: "MetricBreakdown.score (calculateDependencyFreshnessScore 10 3) = 70" by code_simp
  have b: "MetricBreakdown.score (calculateSecurityScore 1 2 3 4) = 22" by code_simp
  have c: "MetricBreakdown.score (calculateSecurityScore 5 0 0 0) = 0" by code_simp
  from metric_scores_in_range [of 3 10 1 2 3 4 True False "\<lambda>_. []" True None True 0 "[]" 0 "[]"]
  show ?thesis using a b c by simp
qed

theorem metric_scores_counterexample:
  "MetricBreakdown.score (calculateDependencyFreshnessScore 2 5) = - 150
   \<and> MetricBreakdown.score (calculateTestCoverageScore (\<lambda>p. ''85.5'') True (Some (171 / 2))) = 171 / 2
   \<and> MetricBreakdown.score (calculateTypescriptStrictnessScore True 120 ''strict'') = 120
   \<and> MetricBreakdown.score (calculateLintingScore (- 1) ''none'') = - 1"
proof -
  have a: "MetricBreakdown.score (calculateDependencyFreshnessScore 2 5) = - 150" by code_simp
  show ?thesis using a
    by (simp add: calculateTestCoverageScore_def calculateTypescriptStrictnessScore_def
      calculateLintingScore_def)
qed


section \<open>Theorems: package-manager detector\<close>

lemma detectLockfiles_eq:
  "detectLockfiles existsIn =
     (if existsIn ''bun.lock'' then [''bun.lock''] else if existsIn ''bun.lockb'' then [''bun.lockb''] else [])
     @ (if existsIn ''pnpm-lock.yaml'' then [''pnpm-lock.yaml''] else [])
     @ (if existsIn ''yarn.lock'' then [''yarn.lock''] else [])
     @ (if existsIn ''package-lock.json'' then [''package-lock.json''] else [])"
  by (simp add: detectLockfiles_def PACKAGE_MANAGERS_def BUN_LOCKFILES_def)

lemma find_config_by_name:
  "find (\<lambda>pm. PackageManagerConfig.name pm = n) PACKAGE_MANAGERS \<noteq> None
   \<and> PackageManagerConfig.name (the (find (\<lambda>pm. PackageManagerConfig.name pm = n) PACKAGE_MANAGERS)) = n"
  by (cases n) (simp_all add: PACKAGE_MANAGERS_def)

text \<open>
  Claim C5. The detected manager is bun when a bun lockfile exists, else pnpm, else yarn,
  else npm, by the lockfiles present; with no lockfile it is the manager that the
  \<open>packageManager\<close> field of the manifest names (\<open>bun@\<close>, \<open>pnpm@\<close>, \<open>yarn@\<close> or \<open>npm@\<close>
  followed by a version), and npm otherwise. With both \<open>bun.lock\<close> and \<open>yarn.lock\<close> present
  the result is bun, \<open>hasMultipleLockfiles\<close> is true and \<open>detectedLockfiles\<close> holds both names.
\<close>

theorem detectPackageManager_priority:
  "PackageManagerInfo.name (detectPackageManager existsIn packageJson) =
     (if existsIn ''bun.lock'' \<or> existsIn ''bun.lockb'' then Bun
      else if existsIn ''pnpm-lock.yaml'' then Pnpm
      else if existsIn ''yarn.lock'' then Yarn
      else if existsIn ''package-lock.json'' then Npm
      else (case (case packageJson of None \<Rightarrow> None | Some pj \<Rightarrow> packageManager pj) of
              None \<Rightarrow> Npm
            | Some field \<Rightarrow>
                if startsWith field ''bun@'' then Bun
                else if startsWith field ''pnpm@'' then Pnpm
                else if startsWith field ''yarn@'' then Yarn
                else Npm))
   \<and> (existsIn ''bun.lock'' \<and> existsIn ''yarn.lock'' \<longrightarrow>
        PackageManagerInfo.name (detectPackageManager existsIn packageJson) = Bun
        \<and> hasMultipleLockfiles (detectPackageManager existsIn packageJson)
        \<and> ''bun.lock'' \<in> set (detectedLockfiles (detectPackageManager existsIn packageJson))
        \<and> ''yarn.lock'' \<in> set (detectedLockfiles (detectPackageManager existsIn packageJson)))"
  using find_config_by_name [of Bun] find_config_by_name [of Pnpm] find_config_by_name [of Yarn] find_config_by_name [of Npm]
  by (auto simp: detectPackageManager_def detectLockfiles_eq Let_def parseCorepackSpec_def
        DEFAULT_PACKAGE_MANAGER_def PACKAGE_MANAGERS_def BUN_LOCKFILES_def
      split: option.splits list.splits if_splits)

theorem detectPackageManager_priority_witness:
  "(\<lambda>f. f \<in> {''bun.lock'', ''yarn.lock''}) ''bun.lock''
   \<and> (\<lambda>f. f \<in> {''bun.lock'', ''yarn.lock''}) ''yarn.lock''
   \<and> detectPackageManager (\<lambda>f. f \<in> {''bun.lock'', ''yarn.lock''}) None =
       \<lparr> PackageManagerInfo.name = Bun, lockfile = Some ''bun.lock'',
         installCommand = ''bun install'', upgradeCommand = ''bun update'',
         hasMultipleLockfiles = True, detectedLockfiles = [''bun.lock'', ''yarn.lock''],
         corepackSpec = None \<rparr>"
proof -
  have run: "detectPackageManager (\<lambda>f. f \<in> {''bun.lock'', ''yarn.lock''}) None =
       \<lparr> PackageManagerInfo.name = Bun, lockfile = Some ''bun.lock'',
         installCommand = ''bun install'', upgradeCommand = ''bun update'',
         hasMultipleLockfiles = True, detectedLockfiles = [''bun.lock'', ''yarn.lock''],
         corepackSpec = None \<rparr>"
    by code_simp
  from detectPackageManager_priority [of "\<lambda>f. f \<in> {''bun.lock'', ''yarn.lock''}" None]
  show ?thesis using run by simp
qed

section \<open>Theorems: outdated-output normalizer\<close>

lemma tryCatch_Inr [simp]: "tryCatch b (\<lambda>e. Inr v) = Inr (case b of Inl e \<Rightarrow> v | Inr x \<Rightarrow> x)"
  by (simp add: tryCatch_def split: sum.splits)

lemma yarn_fold_Inr:
  "foldl (\<lambda>acc line.
                 case acc of
                   Inl e \<Rightarrow> Inl e
                 | Inr packages \<Rightarrow>
                     (case tryCatch (yarnOutdatedLine parse line) (\<lambda>error. Inr []) of
                        Inl e \<Rightarrow> Inl e
                      | Inr added \<Rightarrow> Inr (packages @ added)))
          (Inr acc0) ls
   = Inr (acc0 @ concat (map (\<lambda>line. case yarnOutdatedLine parse line of Inl e \<Rightarrow> [] | Inr added \<Rightarrow> added) ls))"
  by (induction ls arbitrary: acc0) simp_all

lemma parseYarnOutdated_eq:
  "parseYarnOutdated parse output =
     Inr (if trim output = [] then []
          else concat (map (\<lambda>line. case yarnOutdatedLine parse line of Inl e \<Rightarrow> [] | Inr added \<Rightarrow> added)
                        (splitOn CHR 0x0A (trim output))))"
  by (simp add: parseYarnOutdated_def yarn_fold_Inr)

lemma trim_Nil [simp]: "trim [] = []"
  by (simp add: trim_def)

lemma bunOutdatedRow_Nil [simp]: "bunOutdatedRow [] = []"
  by (simp add: bunOutdatedRow_def)

text \<open>
  Claim C1. None of the four outdated parsers throws: each returns a list for every text.
  Each returns the empty list for the empty text. \<open>parseNpmOutdated\<close> and
  \<open>parsePnpmOutdated\<close> return the empty list for a text that is not valid JSON and for an
  object without entries; \<open>parseYarnOutdated\<close> returns it when no line is valid JSON and
  when no line is a table with rows to report; \<open>parseBunOutdated\<close>, whose format is a
  table and not JSON, returns it when no line is a data row (a line with a bar, without
  \<open>Package\<close> and \<open>---\<close>, and with at least four non-empty cells).
\<close>

theorem outdated_parsers_never_throw:
  "(\<exists>pkgs. parseNpmOutdated parseNpm output = Inr pkgs)
   \<and> (\<exists>pkgs. parsePnpmOutdated parsePnpm output = Inr pkgs)
   \<and> (\<exists>pkgs. parseYarnOutdated parseYarn output = Inr pkgs)
   \<and> (\<exists>pkgs. parseBunOutdated output = Inr pkgs)
   \<and> (output = [] \<longrightarrow>
        parseNpmOutdated parseNpm output = Inr [] \<and> parsePnpmOutdated parsePnpm output = Inr []
        \<and> parseYarnOutdated parseYarn output = Inr [] \<and> parseBunOutdated output = Inr [])
   \<and> (isl (parseNpm output) \<longrightarrow> parseNpmOutdated parseNpm output = Inr [])
   \<and> (isl (parsePnpm output) \<longrightarrow> parsePnpmOutdated parsePnpm output = Inr [])
   \<and> (list_all (\<lambda>line. isl (parseYarn line)) (splitOn CHR 0x0A (trim output))
        \<longrightarrow> parseYarnOutdated parseYarn output = Inr [])
   \<and> (parseNpm output = Inr [] \<longrightarrow> parseNpmOutdated parseNpm output = Inr [])
   \<and> (parsePnpm output = Inr [] \<longrightarrow> parsePnpmOutdated parsePnpm output = Inr [])
   \<and> (list_all (\<lambda>line. case parseYarn line of
                          Inl e \<Rightarrow> True
                        | Inr parsed \<Rightarrow>
                            YarnOutdatedLine.type' parsed = ''table'' \<longrightarrow>
                              (case YarnOutdatedLine.data parsed of None \<Rightarrow> True
                               | Some t \<Rightarrow> yarnOutdatedRows t = []))
         (splitOn CHR 0x0A (trim output))
        \<longrightarrow> parseYarnOutdated parseYarn output = Inr [])
   \<and> (list_all (\<lambda>line. \<not> includesStr line ''|'' \<or> includesStr line ''Package''
                        \<or> includesStr line ''---'' \<or> length (bunCells line) < 4)
         (splitOn CHR 0x0A output)
        \<longrightarrow> parseBunOutdated output = Inr [])"
proof -
  have npm: "\<exists>pkgs. parseNpmOutdated parseNpm output = Inr pkgs"
    by (simp add: parseNpmOutdated_def)
  have pnpm: "\<exists>pkgs. parsePnpmOutdated parsePnpm output = Inr pkgs"
    by (simp add: parsePnpmOutdated_def)
  have yarn: "\<exists>pkgs. parseYarnOutdated parseYarn output = Inr pkgs"
    by (simp add: parseYarnOutdated_eq)
  have bun: "\<exists>pkgs. parseBunOutdated output = Inr pkgs"
    by (simp add: parseBunOutdated_def)
  have empty: "output = [] \<longrightarrow>
        parseNpmOutdated parseNpm output = Inr [] \<and> parsePnpmOutdated parsePnpm output = Inr []
        \<and> parseYarnOutdated parseYarn output = Inr [] \<and> parseBunOutdated output = Inr []"
    by (simp add: parseNpmOutdated_def parsePnpmOutdated_def parseYarnOutdated_eq parseBunOutdated_def)
  have npm_bad: "isl (parseNpm output) \<longrightarrow> parseNpmOutdated parseNpm output = Inr []"
    by (auto simp: parseNpmOutdated_def isl_def)
  have pnpm_bad: "isl (parsePnpm output) \<longrightarrow> parsePnpmOutdated parsePnpm output = Inr []"
    by (auto simp: parsePnpmOutdated_def isl_def)
  have yarn_bad: "list_all (\<lambda>line. isl (parseYarn line)) (splitOn CHR 0x0A (trim output))
        \<longrightarrow> parseYarnOutdated parseYarn output = Inr []"
    by (auto simp: parseYarnOutdated_eq list_all_iff yarnOutdatedLine_def isl_def)
  have npm_none: "parseNpm output = Inr [] \<longrightarrow> parseNpmOutdated parseNpm output = Inr []"
    by (simp add: parseNpmOutdated_def)
  have pnpm_none: "parsePnpm output = Inr [] \<longrightarrow> parsePnpmOutdated parsePnpm output = Inr []"
    by (simp add: parsePnpmOutdated_def)
  have yarn_none: "list_all (\<lambda>line. case parseYarn line of
                          Inl e \<Rightarrow> True
                        | Inr parsed \<Rightarrow>
                            YarnOutdatedLine.type' parsed = ''table'' \<longrightarrow>
                              (case YarnOutdatedLine.data parsed of None \<Rightarrow> True
                               | Some t \<Rightarrow> yarnOutdatedRows t = []))
         (splitOn CHR 0x0A (trim output))
        \<longrightarrow> parseYarnOutdated parseYarn output = Inr []"
    by (auto simp: parseYarnOutdated_eq list_all_iff yarnOutdatedLine_def split: sum.splits option.splits)
  have bun_none: "list_all (\<lambda>line. \<not> includesStr line ''|'' \<or> includesStr line ''Package''
                        \<or> includesStr line ''---'' \<or> length (bunCells line) < 4)
         (splitOn CHR 0x0A output)
        \<longrightarrow> parseBunOutdated output = Inr []"
    by (auto simp: parseBunOutdated_def list_all_iff bunOutdatedRow_def Let_def)
  from npm pnpm yarn bun empty npm_bad pnpm_bad yarn_bad npm_none pnpm_none yarn_none bun_none
  show ?thesis by blast
qed


theorem outdated_parsers_never_throw_witness:
  "parseNpmOutdated (\<lambda>s. Inl SyntaxError) [] = Inr []
   \<and> parsePnpmOutdated (\<lambda>s. Inl SyntaxError) [] = Inr []
   \<and> parseYarnOutdated (\<lambda>s. Inl SyntaxError) [] = Inr []
   \<and> parseBunOutdated [] = Inr []
   \<and> parseNpmOutdated (\<lambda>s. Inl SyntaxError) ''not valid json'' = Inr []
   \<and> parsePnpmOutdated (\<lambda>s. Inl SyntaxError) ''not valid json'' = Inr []
   \<and> parseYarnOutdated (\<lambda>s. Inl SyntaxError) ''not valid json'' = Inr []
   \<and> parseNpmOutdated (\<lambda>s. Inr []) ''{}'' = Inr []
   \<and> parsePnpmOutdated (\<lambda>s. Inr []) ''{}'' = Inr []
   \<and> parseYarnOutdated (\<lambda>s. Inr \<lparr> YarnOutdatedLine.type' = ''warning'', YarnOutdatedLine.data = None \<rparr>) ''{...}'' = Inr []
   \<and> parseBunOutdated (''bun outdated v1.3.5'' @ [CHR 0x0A] @ ''Resolving...'') = Inr []"
proof -
  let ?bad = "\<lambda>s :: string. Inl SyntaxError"
  let ?warn = "\<lambda>s :: string. Inr \<lparr> YarnOutdatedLine.type' = ''warning'', YarnOutdatedLine.data = None \<rparr>"
  let ?quiet = "''bun outdated v1.3.5'' @ [CHR 0x0A] @ ''Resolving...''"
  have lines: "list_all (\<lambda>line. \<not> includesStr line ''|'' \<or> includesStr line ''Package''
                        \<or> includesStr line ''---'' \<or> length (bunCells line) < 4)
                 (splitOn CHR 0x0A ?quiet)"
    by code_simp
  have one: "splitOn CHR 0x0A (trim ''{...}'') = [''{...}'']"
    by code_simp
  have bad: "splitOn CHR 0x0A (trim ''not valid json'') = [''not valid json'']"
    by code_simp
  from outdated_parsers_never_throw [of ?bad "[]" ?bad ?bad]
  have a: "parseNpmOutdated ?bad [] = Inr [] \<and> parsePnpmOutdated ?bad [] = Inr []
           \<and> parseYarnOutdated ?bad [] = Inr [] \<and> parseBunOutdated [] = Inr []"
    by simp
  from outdated_parsers_never_throw [of ?bad "''not valid json''" ?bad ?bad] bad
  have b: "parseNpmOutdated ?bad ''not valid json'' = Inr []
           \<and> parsePnpmOutdated ?bad ''not valid json'' = Inr []
           \<and> parseYarnOutdated ?bad ''not valid json'' = Inr []"
    by simp
  from outdated_parsers_never_throw [of "\<lambda>s. Inr []" "''{}''" "\<lambda>s. Inr []" ?bad]
  have c: "parseNpmOutdated (\<lambda>s. Inr []) ''{}'' = Inr []
           \<and> parsePnpmOutdated (\<lambda>s. Inr []) ''{}'' = Inr []"
    by simp
  from outdated_parsers_never_throw [of ?bad "''{...}''" ?bad ?warn] one
  have d: "parseYarnOutdated ?warn ''{...}'' = Inr []"
    by simp
  from outdated_parsers_never_throw [of ?bad ?quiet ?bad ?bad] lines
  have e: "parseBunOutdated ?quiet = Inr []"
    by simp
  from a b c d e show ?thesis by simp
qed


section \<open>Theorems: npm dependency path\<close>

lemma getProperty_Own_iff: "getProperty obj key = Own v \<longleftrightarrow> obj key = Some v"
  by (simp add: getProperty_def split: option.splits)

lemma card_keys_insert_less:
  assumes "n \<notin> visited" "map_of allVulns n = Some v"
  shows "card (fst ` set allVulns - insert n visited) < card (fst ` set allVulns - visited)"
proof -
  from assms(2) have "n \<in> fst ` set allVulns"
    by (metis map_of_eq_None_iff option.distinct(1))
  with assms(1) have mem: "n \<in> fst ` set allVulns - visited" by simp
  have fin: "finite (fst ` set allVulns - visited)" by simp
  have "fst ` set allVulns - insert n visited = (fst ` set allVulns - visited) - {n}" by auto
  with card_Diff1_less [OF fin mem] show ?thesis by simp
qed

lemma buildPathRecursive_length:
  "buildPathRecursive allVulns n visited = Inr chain
     \<Longrightarrow> length chain \<le> Suc (card (fst ` set allVulns - visited))"
proof (induction allVulns n visited arbitrary: chain rule: buildPathRecursive.induct)
  case (1 allVulns n visited)
  note res = "1.prems"
  show ?case
  proof (cases "n \<in> visited")
    case True
    with res show ?thesis by (auto simp: buildPathRecursive.simps [of allVulns n visited])
  next
    case False
    show ?thesis
    proof (cases "getProperty (map_of allVulns) n")
      case Absent
      with False res show ?thesis by (auto simp: buildPathRecursive.simps [of allVulns n visited])
    next
      case Inherited
      with False res show ?thesis by (auto simp: buildPathRecursive.simps [of allVulns n visited])
    next
      case (Own v)
      then have found: "map_of allVulns n = Some v" by (simp add: getProperty_Own_iff)
      show ?thesis
      proof (cases "effects v")
        case Nil
        with False Own res show ?thesis
          by (auto simp: buildPathRecursive.simps [of allVulns n visited])
      next
        case (Cons e es)
        from res False Own Cons obtain parentPath where
          rec: "buildPathRecursive allVulns e (insert n visited) = Inr parentPath"
          and chain: "chain = parentPath @ [n]"
          by (auto simp: buildPathRecursive.simps [of allVulns n visited] split: sum.splits)
        from "1.IH" [OF False Own Cons rec]
        have "length parentPath \<le> Suc (card (fst ` set allVulns - insert n visited))" .
        moreover from card_keys_insert_less [OF False found]
        have "card (fst ` set allVulns - insert n visited) < card (fst ` set allVulns - visited)" .
        ultimately show ?thesis using chain by simp
      qed
    qed
  qed
qed

lemma buildPathRecursive_last:
  "buildPathRecursive allVulns n visited = Inr chain \<Longrightarrow> chain \<noteq> [] \<and> last chain = n"
  by (subst (asm) buildPathRecursive.simps)
     (auto split: if_splits property.splits list.splits sum.splits)

text \<open>
  The builder returns a chain whenever no name in an \<open>effects\<close> array, and not the name it
  starts from, is a member of \<open>Object.prototype\<close> that the map does not have as a key.
\<close>

lemma buildPathRecursive_returns:
  assumes "\<forall>(k, v) \<in> set allVulns. \<forall>e \<in> set (effects v). getProperty (map_of allVulns) e \<noteq> Inherited"
    and "getProperty (map_of allVulns) n \<noteq> Inherited"
  shows "\<exists>chain. buildPathRecursive allVulns n visited = Inr chain"
  using assms
proof (induction allVulns n visited rule: buildPathRecursive.induct)
  case (1 allVulns n visited)
  show ?case
  proof (cases "n \<in> visited")
    case True
    then show ?thesis by (simp add: buildPathRecursive.simps [of allVulns n visited])
  next
    case False
    show ?thesis
    proof (cases "getProperty (map_of allVulns) n")
      case Absent
      with False show ?thesis by (simp add: buildPathRecursive.simps [of allVulns n visited])
    next
      case Inherited
      with "1.prems"(2) show ?thesis by simp
    next
      case (Own v)
      then have found: "map_of allVulns n = Some v" by (simp add: getProperty_Own_iff)
      show ?thesis
      proof (cases "effects v")
        case Nil
        with False Own show ?thesis
          by (simp add: buildPathRecursive.simps [of allVulns n visited])
      next
        case (Cons e es)
        from found have "(n, v) \<in> set allVulns" by (rule map_of_SomeD)
        with "1.prems"(1) Cons have "getProperty (map_of allVulns) e \<noteq> Inherited" by fastforce
        from "1.IH" [OF False Own Cons "1.prems"(1) this]
        obtain parentPath where "buildPathRecursive allVulns e (insert n visited) = Inr parentPath"
          by blast
        with False Own Cons show ?thesis
          by (simp add: buildPathRecursive.simps [of allVulns n visited])
      qed
    qed
  qed
qed

text \<open>
  On a cycle of two packages the builder stops at the name it has already visited.
\<close>

lemma buildPathRecursive_cycle_example:
  "buildPathRecursive
     [(''a'', \<lparr> NpmVulnerability.name = ''a'', severity = ''high'', via = [], effects = [''b''],
                fixAvailable = FixBool False \<rparr>),
      (''b'', \<lparr> NpmVulnerability.name = ''b'', severity = ''high'', via = [], effects = [''a''],
                fixAvailable = FixBool False \<rparr>)] ''a'' {}
   = Inr [''a'', ''b'', ''a'']"
  by code_simp

lemma buildPathRecursive_absent_example:
  "buildPathRecursive
     [(''a'', \<lparr> NpmVulnerability.name = ''a'', severity = ''high'', via = [], effects = [''b''],
                fixAvailable = FixBool False \<rparr>)] ''a'' {}
   = Inr [''b'', ''a'']"
  by code_simp

lemma buildNpmPath_no_effects:
  "effects vuln = [] \<Longrightarrow> buildNpmPath vuln allVulns = Inr (NpmVulnerability.name vuln)"
  by (simp add: buildNpmPath_def)

lemma buildNpmPath_starts_with_name:
  assumes "effects vuln \<noteq> []" and "buildNpmPath vuln allVulns = Inr p"
  shows "\<exists>rest. p = join '' > '' (NpmVulnerability.name vuln # rest)"
proof -
  from assms obtain ps where
    ps: "buildPathRecursive allVulns (NpmVulnerability.name vuln) {} = Inr ps"
    and p: "p = join '' > '' (rev ps)"
    by (auto simp: buildNpmPath_def split: sum.splits)
  from buildPathRecursive_last [OF ps]
  have "ps \<noteq> []" and "last ps = NpmVulnerability.name vuln" by simp_all
  then have "ps = butlast ps @ [NpmVulnerability.name vuln]"
    by (metis append_butlast_last_id)
  then have "rev ps = rev (butlast ps @ [NpmVulnerability.name vuln])"
    by simp
  then have r: "rev ps = NpmVulnerability.name vuln # rev (butlast ps)"
    by simp
  from p have "p = join '' > '' (NpmVulnerability.name vuln # rev (butlast ps))"
    unfolding r .
  then show ?thesis ..
qed

text \<open>
  Claim C4. The recursion of the path builder ends on every vulnerabilities map
  (\<open>buildPathRecursive\<close> is a total function: each call below the first adds a key of the map
  to the visited set), and a chain it returns has at most one element more than the map has
  keys (\<open>buildPathRecursive_length\<close>). It does not return a chain for every map, as the claim
  says: the test for a name that the map does not have reads \<open>allVulns[name]\<close>, which for
  \<open>constructor\<close> is a member of \<open>Object.prototype\<close>; the package \<open>a\<close> that affects a
  package \<open>constructor\<close> outside the map makes the builder throw, and \<open>parseNpmAudit\<close>
  answer null for the whole report.
\<close>

theorem buildPathRecursive_inherited_name_throws:
  "buildPathRecursive
     [(''a'', \<lparr> NpmVulnerability.name = ''a'', severity = ''high'',
                via = [ViaObject \<lparr> NpmVia.title = Some ''Prototype Pollution'' \<rparr>],
                effects = [''constructor''], fixAvailable = FixBool False \<rparr>)] ''a'' {}
   = Inl TypeError
   \<and> parseNpmAudit
       (\<lambda>text. Inr \<lparr> NpmAuditOutput.vulnerabilities = Some
           [(''a'', \<lparr> NpmVulnerability.name = ''a'', severity = ''high'',
                      via = [ViaObject \<lparr> NpmVia.title = Some ''Prototype Pollution'' \<rparr>],
                      effects = [''constructor''], fixAvailable = FixBool False \<rparr>)],
           metadata = Some \<lparr> NpmMetadata.vulnerabilities = Some
             \<lparr> NpmVulnerabilityCounts.low = Some 0, moderate = Some 0, high = Some 1,
               critical = Some 0, total = Some 1 \<rparr> \<rparr> \<rparr>)
       ''{...}''
     = None"
  by code_simp

text \<open>
  Claim C3 asks for the chain from the root to the vulnerable package. The builder returns
  the chain with the root first and the package itself last, and \<open>buildNpmPath\<close> reverses
  it, so the path starts with the vulnerable package and ends with the root: for
  \<open>nth-check\<close>, which affects \<open>css-select\<close>, which affects \<open>svgo\<close>, the path is
  \<open>nth-check > css-select > svgo\<close>. With an empty \<open>effects\<close> the path is the name alone
  (\<open>buildNpmPath_no_effects\<close>).
\<close>

theorem buildNpmPath_vulnerable_first:
  "buildNpmPath
     \<lparr> NpmVulnerability.name = ''nth-check'', severity = ''high'',
       via = [ViaObject \<lparr> NpmVia.title = Some ''Inefficient Regular Expression Complexity'' \<rparr>],
       effects = [''css-select''], fixAvailable = FixInfo \<lparr> version = ''5.0.0'' \<rparr> \<rparr>
     [(''nth-check'',
       \<lparr> NpmVulnerability.name = ''nth-check'', severity = ''high'',
         via = [ViaObject \<lparr> NpmVia.title = Some ''Inefficient Regular Expression Complexity'' \<rparr>],
         effects = [''css-select''], fixAvailable = FixInfo \<lparr> version = ''5.0.0'' \<rparr> \<rparr>),
      (''css-select'',
       \<lparr> NpmVulnerability.name = ''css-select'', severity = ''high'',
         via = [ViaString ''nth-check''],
         effects = [''svgo''], fixAvailable = FixInfo \<lparr> version = ''5.0.0'' \<rparr> \<rparr>)]
   = Inr ''nth-check > css-select > svgo''"
  by code_simp

section \<open>Theorems: npm audit parser\<close>

lemma isPassthrough_single_string: "via vuln = [ViaString s] \<Longrightarrow> isPassthrough vuln"
  by (simp add: isPassthrough_def)

lemma isPassthrough_iff: "isPassthrough vuln \<longleftrightarrow> (\<exists>s. via vuln = [ViaString s])"
proof
  assume p: "isPassthrough vuln"
  then obtain x where x: "via vuln = [x]"
    by (cases "via vuln") (auto simp: isPassthrough_def)
  with p show "\<exists>s. via vuln = [ViaString s]"
    by (cases x) (auto simp: isPassthrough_def)
qed (auto simp: isPassthrough_def)

lemma npm_loop_thrown:
  "foldl (\<lambda>acc (key, vuln).
              case acc of
                Inl err \<Rightarrow> Inl err
              | Inr pushed \<Rightarrow>
                  if isPassthrough vuln then Inr pushed
                  else (case npmVulnerability vulns vuln of
                          Inl err \<Rightarrow> Inl err
                        | Inr found \<Rightarrow> Inr (pushed @ [found])))
       (Inl err) entries = Inl err"
  by (induction entries) (simp_all add: split_beta)

lemma npm_loop:
  "foldl (\<lambda>acc (key, vuln).
              case acc of
                Inl err \<Rightarrow> Inl err
              | Inr pushed \<Rightarrow>
                  if isPassthrough vuln then Inr pushed
                  else (case npmVulnerability vulns vuln of
                          Inl err \<Rightarrow> Inl err
                        | Inr found \<Rightarrow> Inr (pushed @ [found])))
       (Inr acc) entries
   = (if list_ex (\<lambda>(k, v). isl (npmVulnerability vulns v))
            (filter (\<lambda>(k, v). \<not> isPassthrough v) entries)
      then Inl (projl (the (find isl (map (\<lambda>(k, v). npmVulnerability vulns v)
                  (filter (\<lambda>(k, v). \<not> isPassthrough v) entries)))))
      else Inr (acc @ map (\<lambda>(k, v). projr (npmVulnerability vulns v))
                        (filter (\<lambda>(k, v). \<not> isPassthrough v) entries)))"
proof (induction entries arbitrary: acc)
  case Nil
  show ?case by simp
next
  case (Cons x xs)
  obtain k v where x: "x = (k, v)" by (cases x)
  show ?case
  proof (cases "isPassthrough v")
    case True
    with Cons x show ?thesis by simp
  next
    case False
    show ?thesis
    proof (cases "npmVulnerability vulns v")
      case (Inl e)
      with False x show ?thesis by (simp add: npm_loop_thrown)
    next
      case (Inr found)
      with False x Cons [of "acc @ [found]"] show ?thesis by simp
    qed
  qed
qed

lemma npmVulnerabilities_Inr_iff:
  "npmVulnerabilities vulns entries = Inr found
     \<longleftrightarrow> map Inr found = map (\<lambda>(k, v). npmVulnerability vulns v)
                              (filter (\<lambda>(k, v). \<not> isPassthrough v) entries)"
proof -
  let ?kept = "filter (\<lambda>(k, v). \<not> isPassthrough v) entries"
  let ?f = "\<lambda>(k, v). npmVulnerability vulns v"
  show ?thesis
  proof (cases "list_ex (\<lambda>(k, v). isl (npmVulnerability vulns v)) ?kept")
    case True
    then obtain x where x: "x \<in> set ?kept" and l: "isl (?f x)"
      by (auto simp: list_ex_iff)
    have "map Inr found \<noteq> map ?f ?kept"
    proof
      assume "map Inr found = map ?f ?kept"
      then have "set (map ?f ?kept) = Inr ` set found" by (metis set_map)
      with x have "?f x \<in> Inr ` set found" by auto
      with l show False by auto
    qed
    with True show ?thesis by (simp add: npmVulnerabilities_def npm_loop)
  next
    case False
    then have all: "\<forall>x \<in> set ?kept. \<not> isl (?f x)" by (auto simp: list_ex_iff)
    then have eq: "map Inr (map (\<lambda>(k, v). projr (npmVulnerability vulns v)) ?kept) = map ?f ?kept"
      by (auto simp: split_beta)
    have inj: "map Inr found = map Inr (map (\<lambda>(k, v). projr (npmVulnerability vulns v)) ?kept)
                 \<longleftrightarrow> found = map (\<lambda>(k, v). projr (npmVulnerability vulns v)) ?kept"
      by (simp add: inj_map_eq_map del: map_map)
    from False have "npmVulnerabilities vulns entries
                       = Inr (map (\<lambda>(k, v). projr (npmVulnerability vulns v)) ?kept)"
      by (simp add: npmVulnerabilities_def npm_loop)
    then have e1: "npmVulnerabilities vulns entries = Inr found
                 \<longleftrightarrow> found = map (\<lambda>(k, v). projr (npmVulnerability vulns v)) ?kept"
      by auto
    from inj have e2: "found = map (\<lambda>(k, v). projr (npmVulnerability vulns v)) ?kept
                 \<longleftrightarrow> map Inr found
                       = map Inr (map (\<lambda>(k, v). projr (npmVulnerability vulns v)) ?kept)"
      by (rule sym)
    from e1 e2 have "npmVulnerabilities vulns entries = Inr found
                 \<longleftrightarrow> map Inr found
                       = map Inr (map (\<lambda>(k, v). projr (npmVulnerability vulns v)) ?kept)"
      by blast
    with eq show ?thesis by metis
  qed
qed

lemma npmVulnerabilities_Inl_iff:
  "isl (npmVulnerabilities vulns entries)
     \<longleftrightarrow> list_ex (\<lambda>(k, v). isl (npmVulnerability vulns v))
           (filter (\<lambda>(k, v). \<not> isPassthrough v) entries)"
  by (simp add: npmVulnerabilities_def npm_loop)

lemma npmVulnerability_isl: "isl (npmVulnerability vulns v) = isl (buildNpmPath v vulns)"
  by (simp add: npmVulnerability_def split: sum.splits)

text \<open>
  Claim C2. Take an npm audit report with counts in its metadata, whose vulnerabilities map
  has an entry with a \<open>via\<close> of one bare string. \<open>parseNpmAudit\<close> answers null exactly when
  building the path of one of the other entries that it keeps throws. Every result it
  returns has a list built from the other entries only (those that are not such pass-through
  entries themselves, in their order), so the entry is left out, and a summary that holds the
  five counts of \<open>metadata.vulnerabilities\<close> (0 for a missing one), whatever the map contains.
\<close>

theorem parseNpmAudit_omits_passthrough:
  assumes "trim output \<noteq> []"
    and "parse output = Inr d"
    and "NpmAuditOutput.metadata d = Some md"
    and "NpmMetadata.vulnerabilities md = Some meta"
    and "NpmAuditOutput.vulnerabilities d = Some (before @ (key, vuln) # after)"
    and "via vuln = [ViaString s]"
  shows "(parseNpmAudit parse output = None)
           = list_ex (\<lambda>(k, v). isl (buildNpmPath v (before @ (key, vuln) # after)))
               (filter (\<lambda>(k, v). \<not> isPassthrough v) (before @ after))
         \<and> (\<forall>r. parseNpmAudit parse output = Some r \<longrightarrow>
               map Inr (AuditResult.vulnerabilities r) =
                 map (\<lambda>(k, v). npmVulnerability (before @ (key, vuln) # after) v)
                   (filter (\<lambda>(k, v). \<not> isPassthrough v) (before @ after))
             \<and> length (AuditResult.vulnerabilities r) \<le> length before + length after
             \<and> summary r =
                 \<lparr> AuditSummary.critical = orZero (NpmVulnerabilityCounts.critical meta),
                   high = orZero (NpmVulnerabilityCounts.high meta),
                   moderate = orZero (NpmVulnerabilityCounts.moderate meta),
                   low = orZero (NpmVulnerabilityCounts.low meta),
                   total = orZero (NpmVulnerabilityCounts.total meta) \<rparr>)"
proof -
  let ?all = "before @ (key, vuln) # after"
  let ?kept = "filter (\<lambda>(k, v). \<not> isPassthrough v) (before @ after)"
  from assms(6) have skip: "isPassthrough vuln" by (rule isPassthrough_single_string)
  then have kept: "filter (\<lambda>(k, v). \<not> isPassthrough v) ?all = ?kept" by simp
  have res: "parseNpmAudit parse output =
               (case npmVulnerabilities ?all ?all of
                  Inl err \<Rightarrow> None
                | Inr found \<Rightarrow>
                    Some \<lparr> AuditResult.vulnerabilities = found,
                           summary =
                             \<lparr> AuditSummary.critical = orZero (NpmVulnerabilityCounts.critical meta),
                               high = orZero (NpmVulnerabilityCounts.high meta),
                               moderate = orZero (NpmVulnerabilityCounts.moderate meta),
                               low = orZero (NpmVulnerabilityCounts.low meta),
                               total = orZero (NpmVulnerabilityCounts.total meta) \<rparr> \<rparr>)"
    using assms(1-5) by (simp add: parseNpmAudit_def Let_def)
  have none: "(parseNpmAudit parse output = None)
                = list_ex (\<lambda>(k, v). isl (buildNpmPath v ?all)) ?kept"
    using npmVulnerabilities_Inl_iff [of ?all ?all]
    unfolding kept res npmVulnerability_isl
    by (cases "npmVulnerabilities ?all ?all") simp_all
  have some: "\<forall>r. parseNpmAudit parse output = Some r \<longrightarrow>
               map Inr (AuditResult.vulnerabilities r) =
                 map (\<lambda>(k, v). npmVulnerability ?all v) ?kept
             \<and> length (AuditResult.vulnerabilities r) \<le> length before + length after
             \<and> summary r =
                 \<lparr> AuditSummary.critical = orZero (NpmVulnerabilityCounts.critical meta),
                   high = orZero (NpmVulnerabilityCounts.high meta),
                   moderate = orZero (NpmVulnerabilityCounts.moderate meta),
                   low = orZero (NpmVulnerabilityCounts.low meta),
                   total = orZero (NpmVulnerabilityCounts.total meta) \<rparr>"
  proof (intro allI impI)
    fix r
    assume r: "parseNpmAudit parse output = Some r"
    with res obtain found where f: "npmVulnerabilities ?all ?all = Inr found"
      and rr: "r = \<lparr> AuditResult.vulnerabilities = found,
                     summary =
                       \<lparr> AuditSummary.critical = orZero (NpmVulnerabilityCounts.critical meta),
                         high = orZero (NpmVulnerabilityCounts.high meta),
                         moderate = orZero (NpmVulnerabilityCounts.moderate meta),
                         low = orZero (NpmVulnerabilityCounts.low meta),
                         total = orZero (NpmVulnerabilityCounts.total meta) \<rparr> \<rparr>"
      by (cases "npmVulnerabilities ?all ?all") auto
    from f have m: "map Inr found = map (\<lambda>(k, v). npmVulnerability ?all v) ?kept"
      unfolding npmVulnerabilities_Inr_iff kept .
    then have "length (map Inr found :: (error + Vulnerability) list) = length ?kept"
      by simp
    then have "length found = length ?kept" by simp
    moreover have "length ?kept \<le> length before + length after"
      by (metis length_append length_filter_le)
    ultimately have "length found \<le> length before + length after" by simp
    with m rr show "map Inr (AuditResult.vulnerabilities r) =
                 map (\<lambda>(k, v). npmVulnerability ?all v) ?kept
             \<and> length (AuditResult.vulnerabilities r) \<le> length before + length after
             \<and> summary r =
                 \<lparr> AuditSummary.critical = orZero (NpmVulnerabilityCounts.critical meta),
                   high = orZero (NpmVulnerabilityCounts.high meta),
                   moderate = orZero (NpmVulnerabilityCounts.moderate meta),
                   low = orZero (NpmVulnerabilityCounts.low meta),
                   total = orZero (NpmVulnerabilityCounts.total meta) \<rparr>"
      by simp
  qed
  from none some show ?thesis by (rule conjI)
qed

theorem parseNpmAudit_omits_passthrough_witness:
  "parseNpmAudit
     (\<lambda>text. Inr \<lparr> NpmAuditOutput.vulnerabilities = Some
         ([(''nth-check'',
            \<lparr> NpmVulnerability.name = ''nth-check'', severity = ''high'',
              via = [ViaObject \<lparr> NpmVia.title = Some ''Inefficient Regular Expression Complexity'' \<rparr>],
              effects = [''css-select''], fixAvailable = FixInfo \<lparr> version = ''5.0.0'' \<rparr> \<rparr>)]
          @ (''css-select'',
            \<lparr> NpmVulnerability.name = ''css-select'', severity = ''high'',
              via = [ViaString ''nth-check''],
              effects = [''svgo''], fixAvailable = FixInfo \<lparr> version = ''5.0.0'' \<rparr> \<rparr>) # []),
         metadata = Some \<lparr> NpmMetadata.vulnerabilities = Some
           \<lparr> NpmVulnerabilityCounts.low = Some 0, moderate = Some 2, high = Some 1,
             critical = Some 0, total = Some 3 \<rparr> \<rparr> \<rparr>)
     ''{...}''
   = Some \<lparr> AuditResult.vulnerabilities =
              [\<lparr> package = ''nth-check'', severity = SevHigh,
                 title = ''Inefficient Regular Expression Complexity'',
                 path = ''nth-check > css-select > svgo'',
                 fixAvailable = True, fixVersion = Some ''5.0.0'' \<rparr>],
            summary = \<lparr> AuditSummary.critical = 0, high = 1, moderate = 2, low = 0, total = 3 \<rparr> \<rparr>
   \<and> parseNpmAudit
     (\<lambda>text. Inr \<lparr> NpmAuditOutput.vulnerabilities = Some
         ([(''lodash'',
            \<lparr> NpmVulnerability.name = ''lodash'', severity = ''high'',
              via = [ViaObject \<lparr> NpmVia.title = Some ''Prototype Pollution'' \<rparr>],
              effects = [''constructor''], fixAvailable = FixBool False \<rparr>)]
          @ (''grunt'',
            \<lparr> NpmVulnerability.name = ''grunt'', severity = ''high'',
              via = [ViaString ''lodash''],
              effects = [], fixAvailable = FixBool False \<rparr>) # []),
         metadata = Some \<lparr> NpmMetadata.vulnerabilities = Some
           \<lparr> NpmVulnerabilityCounts.low = Some 0, moderate = Some 0, high = Some 2,
             critical = Some 0, total = Some 2 \<rparr> \<rparr> \<rparr>)
     ''{...}''
   = None"
  (is "parseNpmAudit ?parse ?output = Some ?result \<and> parseNpmAudit ?parseT ?output = None")
proof -
  let ?nth = "\<lparr> NpmVulnerability.name = ''nth-check'', severity = ''high'',
              via = [ViaObject \<lparr> NpmVia.title = Some ''Inefficient Regular Expression Complexity'' \<rparr>],
              effects = [''css-select''], fixAvailable = FixInfo \<lparr> version = ''5.0.0'' \<rparr> \<rparr>"
  let ?css = "\<lparr> NpmVulnerability.name = ''css-select'', severity = ''high'',
              via = [ViaString ''nth-check''],
              effects = [''svgo''], fixAvailable = FixInfo \<lparr> version = ''5.0.0'' \<rparr> \<rparr>"
  let ?meta = "\<lparr> NpmVulnerabilityCounts.low = Some 0, moderate = Some 2, high = Some 1,
             critical = Some 0, total = Some 3 \<rparr>"
  let ?md = "\<lparr> NpmMetadata.vulnerabilities = Some ?meta \<rparr>"
  let ?d = "\<lparr> NpmAuditOutput.vulnerabilities = Some ([(''nth-check'', ?nth)] @ (''css-select'', ?css) # []),
             metadata = Some ?md \<rparr>"
  let ?lod = "\<lparr> NpmVulnerability.name = ''lodash'', severity = ''high'',
              via = [ViaObject \<lparr> NpmVia.title = Some ''Prototype Pollution'' \<rparr>],
              effects = [''constructor''], fixAvailable = FixBool False \<rparr>"
  let ?gru = "\<lparr> NpmVulnerability.name = ''grunt'', severity = ''high'',
              via = [ViaString ''lodash''],
              effects = [], fixAvailable = FixBool False \<rparr>"
  let ?metaT = "\<lparr> NpmVulnerabilityCounts.low = Some 0, moderate = Some 0, high = Some 2,
             critical = Some 0, total = Some 2 \<rparr>"
  let ?mdT = "\<lparr> NpmMetadata.vulnerabilities = Some ?metaT \<rparr>"
  let ?dT = "\<lparr> NpmAuditOutput.vulnerabilities = Some ([(''lodash'', ?lod)] @ (''grunt'', ?gru) # []),
             metadata = Some ?mdT \<rparr>"
  have h1: "trim ''{...}'' \<noteq> []" by code_simp
  have h2: "?parse ?output = Inr ?d" by simp
  have h3: "NpmAuditOutput.metadata ?d = Some ?md" by simp
  have h4: "NpmMetadata.vulnerabilities ?md = Some ?meta" by simp
  have h5: "NpmAuditOutput.vulnerabilities ?d = Some ([(''nth-check'', ?nth)] @ (''css-select'', ?css) # [])"
    by simp
  have h6: "via ?css = [ViaString ''nth-check'']" by simp
  have run: "parseNpmAudit ?parse ?output = Some ?result" by code_simp
  from parseNpmAudit_omits_passthrough [OF h1 h2 h3 h4 h5 h6] run
  have "length (AuditResult.vulnerabilities ?result)
          \<le> length [(''nth-check'', ?nth)] + length ([] :: (string \<times> NpmVulnerability) list)
        \<and> summary ?result = \<lparr> AuditSummary.critical = orZero (NpmVulnerabilityCounts.critical ?meta),
                   high = orZero (NpmVulnerabilityCounts.high ?meta),
                   moderate = orZero (NpmVulnerabilityCounts.moderate ?meta),
                   low = orZero (NpmVulnerabilityCounts.low ?meta),
                   total = orZero (NpmVulnerabilityCounts.total ?meta) \<rparr>"
    by blast
  have t2: "?parseT ?output = Inr ?dT" by simp
  have t3: "NpmAuditOutput.metadata ?dT = Some ?mdT" by simp
  have t4: "NpmMetadata.vulnerabilities ?mdT = Some ?metaT" by simp
  have t5: "NpmAuditOutput.vulnerabilities ?dT = Some ([(''lodash'', ?lod)] @ (''grunt'', ?gru) # [])"
    by simp
  have t6: "via ?gru = [ViaString ''lodash'']" by simp
  have thrown: "list_ex (\<lambda>(k, v). isl (buildNpmPath v ([(''lodash'', ?lod)] @ (''grunt'', ?gru) # [])))
                  (filter (\<lambda>(k, v). \<not> isPassthrough v) ([(''lodash'', ?lod)] @ []))"
    by code_simp
  from parseNpmAudit_omits_passthrough [OF h1 t2 t3 t4 t5 t6] thrown
  have "parseNpmAudit ?parseT ?output = None" by blast
  with run show ?thesis by blast
qed

section \<open>Theorems: fix versions of pnpm and yarn advisories\<close>

text \<open>
  The search for a version finds nothing exactly when the text has no part made of three
  non-empty runs of digits separated by two dots (\<open>matchVersion_None_iff\<close>).
\<close>

lemma matchVersionAt_complete:
  assumes "a \<noteq> []" "list_all isDigit a" "b \<noteq> []" "list_all isDigit b" "c \<noteq> []" "list_all isDigit c"
  shows "matchVersionAt (a @ ''.'' @ b @ ''.'' @ c @ post) \<noteq> None"
proof -
  from digitsThen_prefix [OF assms(5,6), of post]
  obtain c' r3 where c: "digitsThen (c @ post) = Some (c', r3)" by auto
  show ?thesis
    using digitsThen_dot [OF assms(1,2), of "b @ CHR ''.'' # c @ post"]
      digitsThen_dot [OF assms(3,4), of "c @ post"] c
    by (simp add: matchVersionAt_def dotThen_def)
qed

lemma matchVersionAt_SomeD:
  assumes "matchVersionAt s = Some v"
  shows "\<exists>a b c post. s = a @ ''.'' @ b @ ''.'' @ c @ post \<and> v = a @ ''.'' @ b @ ''.'' @ c
           \<and> a \<noteq> [] \<and> b \<noteq> [] \<and> c \<noteq> []
           \<and> list_all isDigit a \<and> list_all isDigit b \<and> list_all isDigit c"
proof -
  from assms obtain a r1 r1' b r2 r2' c r3 where
    1: "digitsThen s = Some (a, r1)" and 2: "dotThen r1 = Some r1'"
    and 3: "digitsThen r1' = Some (b, r2)" and 4: "dotThen r2 = Some r2'"
    and 5: "digitsThen r2' = Some (c, r3)" and v: "v = a @ ''.'' @ b @ ''.'' @ c"
    by (auto simp: matchVersionAt_def split: option.splits prod.splits)
  from digitsThen_SomeD [OF 1] dotThen_SomeD [OF 2] digitsThen_SomeD [OF 3] dotThen_SomeD [OF 4]
    digitsThen_SomeD [OF 5]
  have "s = a @ ''.'' @ b @ ''.'' @ c @ r3" by simp
  with v digitsThen_SomeD [OF 1] digitsThen_SomeD [OF 3] digitsThen_SomeD [OF 5]
  show ?thesis by blast
qed

lemma matchVersion_complete:
  assumes "a \<noteq> []" "list_all isDigit a" "b \<noteq> []" "list_all isDigit b" "c \<noteq> []" "list_all isDigit c"
  shows "matchVersion (pre @ a @ ''.'' @ b @ ''.'' @ c @ post) \<noteq> None"
proof (induction pre)
  case Nil
  from assms(1) obtain x xs where a: "a = x # xs" by (cases a) auto
  from matchVersionAt_complete [OF assms, of post]
  show ?case by (auto simp: a)
next
  case (Cons p pre)
  then show ?case by (auto split: option.splits)
qed

lemma matchVersion_SomeD:
  "matchVersion s = Some v \<Longrightarrow>
     \<exists>pre a b c post. s = pre @ a @ ''.'' @ b @ ''.'' @ c @ post \<and> v = a @ ''.'' @ b @ ''.'' @ c
           \<and> a \<noteq> [] \<and> b \<noteq> [] \<and> c \<noteq> []
           \<and> list_all isDigit a \<and> list_all isDigit b \<and> list_all isDigit c"
proof (induction s)
  case Nil
  then show ?case by simp
next
  case (Cons x xs)
  show ?case
  proof (cases "matchVersionAt (x # xs)")
    case None
    with Cons.prems have "matchVersion xs = Some v" by simp
    from Cons.IH [OF this] obtain pre a b c post where
      "xs = pre @ a @ ''.'' @ b @ ''.'' @ c @ post \<and> v = a @ ''.'' @ b @ ''.'' @ c
           \<and> a \<noteq> [] \<and> b \<noteq> [] \<and> c \<noteq> []
           \<and> list_all isDigit a \<and> list_all isDigit b \<and> list_all isDigit c" by blast
    then have "x # xs = (x # pre) @ a @ ''.'' @ b @ ''.'' @ c @ post \<and> v = a @ ''.'' @ b @ ''.'' @ c
           \<and> a \<noteq> [] \<and> b \<noteq> [] \<and> c \<noteq> []
           \<and> list_all isDigit a \<and> list_all isDigit b \<and> list_all isDigit c" by simp
    then show ?thesis by blast
  next
    case (Some w)
    with Cons.prems have "w = v" by simp
    with Some matchVersionAt_SomeD [of "x # xs" v] obtain a b c post where
      "x # xs = [] @ a @ ''.'' @ b @ ''.'' @ c @ post \<and> v = a @ ''.'' @ b @ ''.'' @ c
           \<and> a \<noteq> [] \<and> b \<noteq> [] \<and> c \<noteq> []
           \<and> list_all isDigit a \<and> list_all isDigit b \<and> list_all isDigit c" by auto
    then show ?thesis by blast
  qed
qed

lemma matchVersion_None_iff:
  "matchVersion s = None \<longleftrightarrow>
     \<not> (\<exists>pre a b c post. s = pre @ a @ ''.'' @ b @ ''.'' @ c @ post
           \<and> a \<noteq> [] \<and> b \<noteq> [] \<and> c \<noteq> []
           \<and> list_all isDigit a \<and> list_all isDigit b \<and> list_all isDigit c)"
proof
  assume n: "matchVersion s = None"
  show "\<not> (\<exists>pre a b c post. s = pre @ a @ ''.'' @ b @ ''.'' @ c @ post
           \<and> a \<noteq> [] \<and> b \<noteq> [] \<and> c \<noteq> []
           \<and> list_all isDigit a \<and> list_all isDigit b \<and> list_all isDigit c)"
  proof
    assume "\<exists>pre a b c post. s = pre @ a @ ''.'' @ b @ ''.'' @ c @ post
           \<and> a \<noteq> [] \<and> b \<noteq> [] \<and> c \<noteq> []
           \<and> list_all isDigit a \<and> list_all isDigit b \<and> list_all isDigit c"
    then obtain pre a b c post where s: "s = pre @ a @ ''.'' @ b @ ''.'' @ c @ post"
      and "a \<noteq> []" "list_all isDigit a" "b \<noteq> []" "list_all isDigit b" "c \<noteq> []" "list_all isDigit c"
      by blast
    from matchVersion_complete [OF this(2-7), of pre post] n s show False by simp
  qed
next
  assume "\<not> (\<exists>pre a b c post. s = pre @ a @ ''.'' @ b @ ''.'' @ c @ post
           \<and> a \<noteq> [] \<and> b \<noteq> [] \<and> c \<noteq> []
           \<and> list_all isDigit a \<and> list_all isDigit b \<and> list_all isDigit c)"
  with matchVersion_SomeD [of s] show "matchVersion s = None"
    by (cases "matchVersion s") blast+
qed

lemma patchedFixVersion_None:
  "patched = None \<or> patched = Some [] \<or> patched = Some ''<0.0.0''
     \<or> (\<exists>p. patched = Some p \<and> matchVersion p = None)
   \<Longrightarrow> patchedFixVersion patched = None"
  by (auto simp: patchedFixVersion_def)

lemma pnpmVulnerability_fix:
  "Vulnerability.fixAvailable (pnpmVulnerability adv)
     = (patchedFixVersion (PnpmAdvisory.patched_versions adv) \<noteq> None)
   \<and> fixVersion (pnpmVulnerability adv) = patchedFixVersion (PnpmAdvisory.patched_versions adv)"
  by (simp add: pnpmVulnerability_def Let_def)

lemma yarnVulnerability_fix:
  "Vulnerability.fixAvailable (yarnVulnerability d)
     = (patchedFixVersion (YarnAdvisory.patched_versions (advisory d)) \<noteq> None)
   \<and> fixVersion (yarnVulnerability d) = patchedFixVersion (YarnAdvisory.patched_versions (advisory d))"
  by (simp add: yarnVulnerability_def Let_def)

lemma yarnAuditLine_vulns:
  assumes "list_all P (fst st)" and "\<And>d. P (yarnVulnerability d)"
  shows "list_all P (fst (yarnAuditLine parse st line))"
  using assms
  by (auto simp: yarnAuditLine_def split: sum.splits YarnAuditData.splits)

lemma yarn_fold_vulns:
  assumes "list_all P (fst st)" and "\<And>d. P (yarnVulnerability d)"
  shows "list_all P (fst (foldl (yarnAuditLine parse) st ls))"
  using assms(1)
proof (induction ls arbitrary: st)
  case Nil
  then show ?case by simp
next
  case (Cons l ls)
  from yarnAuditLine_vulns [OF Cons.prems assms(2)]
  have "list_all P (fst (yarnAuditLine parse st l))" .
  from Cons.IH [OF this] show ?case by simp
qed

lemma parsePnpmAudit_Some:
  assumes "parsePnpmAudit parse output = Some r"
  obtains d md meta where "parse output = Inr d" "error' d = None"
    "PnpmAuditOutput.metadata d = Some md" "PnpmMetadata.vulnerabilities md = Some meta"
    "AuditResult.vulnerabilities r =
       map (\<lambda>(key, adv). pnpmVulnerability adv) (case advisories d of None \<Rightarrow> [] | Some as \<Rightarrow> as)"
    "summary r = countsSummary meta"
  using assms
  by (auto simp: parsePnpmAudit_def Let_def split: if_splits sum.splits option.splits)

lemma parseYarnAudit_Some:
  assumes "parseYarnAudit parse output = Some r"
  shows "AuditResult.vulnerabilities r
           = fst (foldl (yarnAuditLine parse) ([], None) (splitOn CHR 0x0A (trim output)))"
  using assms
  by (auto simp: parseYarnAudit_def split: if_splits prod.splits option.splits)

text \<open>
  Claim C10. Every vulnerability that \<open>parsePnpmAudit\<close> or \<open>parseYarnAudit\<close> emits has
  \<open>fixAvailable\<close> true exactly when its \<open>fixVersion\<close> is present. An advisory whose
  \<open>patched_versions\<close> is \<open><0.0.0\<close>, or a text in which no major.minor.patch version is
  found, is emitted with \<open>fixAvailable\<close> false and without a fix version.
\<close>

theorem audit_fix_available_iff_version:
  "(parsePnpmAudit parseP outP = Some r
      \<longrightarrow> list_all fixConsistent (AuditResult.vulnerabilities r))
   \<and> (parseYarnAudit parseY outY = Some r'
      \<longrightarrow> list_all fixConsistent (AuditResult.vulnerabilities r'))
   \<and> fixConsistent (pnpmVulnerability adv) \<and> fixConsistent (yarnVulnerability yd)
   \<and> (PnpmAdvisory.patched_versions adv = Some ''<0.0.0''
        \<or> (\<exists>p. PnpmAdvisory.patched_versions adv = Some p \<and> matchVersion p = None)
      \<longrightarrow> \<not> Vulnerability.fixAvailable (pnpmVulnerability adv)
          \<and> fixVersion (pnpmVulnerability adv) = None)
   \<and> (YarnAdvisory.patched_versions (advisory yd) = Some ''<0.0.0''
        \<or> (\<exists>p. YarnAdvisory.patched_versions (advisory yd) = Some p \<and> matchVersion p = None)
      \<longrightarrow> \<not> Vulnerability.fixAvailable (yarnVulnerability yd)
          \<and> fixVersion (yarnVulnerability yd) = None)"
proof -
  have p1: "\<And>a. fixConsistent (pnpmVulnerability a)"
    by (simp add: fixConsistent_def pnpmVulnerability_fix)
  have y1: "\<And>d. fixConsistent (yarnVulnerability d)"
    by (simp add: fixConsistent_def yarnVulnerability_fix)
  have pnpm: "parsePnpmAudit parseP outP = Some r
      \<longrightarrow> list_all fixConsistent (AuditResult.vulnerabilities r)"
  proof
    assume h: "parsePnpmAudit parseP outP = Some r"
    show "list_all fixConsistent (AuditResult.vulnerabilities r)"
      by (rule parsePnpmAudit_Some [OF h]) (simp add: list_all_iff p1 split_beta)
  qed
  have yarn: "parseYarnAudit parseY outY = Some r'
      \<longrightarrow> list_all fixConsistent (AuditResult.vulnerabilities r')"
  proof
    assume "parseYarnAudit parseY outY = Some r'"
    from parseYarnAudit_Some [OF this] yarn_fold_vulns [of fixConsistent "([], None)" parseY, OF _ y1]
    show "list_all fixConsistent (AuditResult.vulnerabilities r')" by simp
  qed
  have p2: "PnpmAdvisory.patched_versions adv = Some ''<0.0.0''
        \<or> (\<exists>p. PnpmAdvisory.patched_versions adv = Some p \<and> matchVersion p = None)
      \<longrightarrow> \<not> Vulnerability.fixAvailable (pnpmVulnerability adv)
          \<and> fixVersion (pnpmVulnerability adv) = None"
    using patchedFixVersion_None [of "PnpmAdvisory.patched_versions adv"]
    by (auto simp: pnpmVulnerability_fix)
  have y2: "YarnAdvisory.patched_versions (advisory yd) = Some ''<0.0.0''
        \<or> (\<exists>p. YarnAdvisory.patched_versions (advisory yd) = Some p \<and> matchVersion p = None)
      \<longrightarrow> \<not> Vulnerability.fixAvailable (yarnVulnerability yd)
          \<and> fixVersion (yarnVulnerability yd) = None"
    using patchedFixVersion_None [of "YarnAdvisory.patched_versions (advisory yd)"]
    by (auto simp: yarnVulnerability_fix)
  from pnpm yarn p1 [of adv] y1 [of yd] p2 y2 show ?thesis by blast
qed


theorem audit_fix_available_iff_version_witness:
  "parsePnpmAudit
     (\<lambda>text. Inr \<lparr> advisories = Some
         [(''1'', \<lparr> PnpmAdvisory.module_name' = ''nth-check'', severity = ''high'',
                    title = ''Inefficient Regular Expression Complexity'',
                    patched_versions = Some ''>=2.0.1'',
                    findings = Some [\<lparr> paths = Some [''svgo>css-select>nth-check''] \<rparr>] \<rparr>),
          (''2'', \<lparr> PnpmAdvisory.module_name' = ''unfixable-pkg'', severity = ''low'',
                    title = ''No fix'', patched_versions = Some ''<0.0.0'',
                    findings = Some [\<lparr> paths = Some [''unfixable-pkg''] \<rparr>] \<rparr>)],
         metadata = Some \<lparr> PnpmMetadata.vulnerabilities = Some
           \<lparr> info = Some 0, low = Some 1, moderate = Some 0, high = Some 1, critical = Some 0 \<rparr> \<rparr>,
         error' = None \<rparr>)
     ''{...}''
   = Some \<lparr> AuditResult.vulnerabilities =
              [\<lparr> package = ''nth-check'', severity = SevHigh,
                 title = ''Inefficient Regular Expression Complexity'',
                 path = ''svgo > css-select > nth-check'',
                 fixAvailable = True, fixVersion = Some ''2.0.1'' \<rparr>,
               \<lparr> package = ''unfixable-pkg'', severity = SevLow, title = ''No fix'',
                 path = ''unfixable-pkg'', fixAvailable = False, fixVersion = None \<rparr>],
            summary = \<lparr> AuditSummary.critical = 0, high = 1, moderate = 0, low = 1, total = 2 \<rparr> \<rparr>
   \<and> parseYarnAudit
       (\<lambda>line. Inr \<lparr> YarnAuditLine.type' = ''auditAdvisory'',
                       data = AdvisoryData
                         \<lparr> resolution = \<lparr> YarnResolution.path = ''dep>pkg-b'' \<rparr>,
                           advisory = \<lparr> YarnAdvisory.module_name' = ''pkg-b'', severity = ''Medium'',
                                        title = ''Issue'', patched_versions = Some ''>=2.x'' \<rparr> \<rparr> \<rparr>)
       ''{...}''
     = Some \<lparr> AuditResult.vulnerabilities =
                [\<lparr> package = ''pkg-b'', severity = SevModerate, title = ''Issue'',
                   path = ''dep > pkg-b'', fixAvailable = False, fixVersion = None \<rparr>],
              summary = \<lparr> AuditSummary.critical = 0, high = 0, moderate = 1, low = 0, total = 1 \<rparr> \<rparr>
   \<and> matchVersion ''>=2.x'' = None"
  (is "parsePnpmAudit ?parseP ?out = Some ?r \<and> parseYarnAudit ?parseY ?out = Some ?r' \<and> _")
proof -
  let ?adv = "\<lparr> PnpmAdvisory.module_name' = ''unfixable-pkg'', severity = ''low'',
                    title = ''No fix'', patched_versions = Some ''<0.0.0'',
                    findings = Some [\<lparr> paths = Some [''unfixable-pkg''] \<rparr>] \<rparr>"
  let ?yd = "\<lparr> resolution = \<lparr> YarnResolution.path = ''dep>pkg-b'' \<rparr>,
                           advisory = \<lparr> YarnAdvisory.module_name' = ''pkg-b'', severity = ''Medium'',
                                        title = ''Issue'', patched_versions = Some ''>=2.x'' \<rparr> \<rparr>"
  have runP: "parsePnpmAudit ?parseP ?out = Some ?r" by code_simp
  have runY: "parseYarnAudit ?parseY ?out = Some ?r'" by code_simp
  have none: "matchVersion ''>=2.x'' = None" by code_simp
  have hp: "PnpmAdvisory.patched_versions ?adv = Some ''<0.0.0''" by simp
  have hy: "\<exists>p. YarnAdvisory.patched_versions (advisory ?yd) = Some p \<and> matchVersion p = None"
    using none by simp
  from audit_fix_available_iff_version
         [where parseP = ?parseP and outP = ?out and r = ?r and parseY = ?parseY
            and outY = ?out and r' = ?r' and adv = ?adv and yd = ?yd]
       runP runY hp hy
  have "list_all fixConsistent (AuditResult.vulnerabilities ?r)
        \<and> list_all fixConsistent (AuditResult.vulnerabilities ?r')
        \<and> \<not> Vulnerability.fixAvailable (pnpmVulnerability ?adv)
        \<and> \<not> Vulnerability.fixAvailable (yarnVulnerability ?yd)"
    by blast
  with runP runY none show ?thesis by blast
qed


section \<open>Theorems: audit summaries\<close>

lemma countsSummary_total:
  "AuditSummary.total (countsSummary meta)
     = AuditSummary.critical (countsSummary meta) + AuditSummary.high (countsSummary meta)
       + AuditSummary.moderate (countsSummary meta) + AuditSummary.low (countsSummary meta)
       + orZero (info meta)"
  by (simp add: countsSummary_def Let_def)

lemma countsSummary_invariant: "countsNonNegative meta \<Longrightarrow> summaryInvariant (countsSummary meta)"
  by (simp add: countsNonNegative_def summaryInvariant_def countsSummary_def Let_def)

lemma countSeverity_sum:
  "countSeverity SevCritical vs + countSeverity SevHigh vs + countSeverity SevModerate vs
     + countSeverity SevLow vs \<le> int (length vs)"
proof (induction vs)
  case Nil
  then show ?case by (simp add: countSeverity_def)
next
  case (Cons v vs)
  then show ?case by (cases "Vulnerability.severity v") (simp_all add: countSeverity_def)
qed

lemma countSeverity_nonneg: "0 \<le> countSeverity sev vs"
  by (simp add: countSeverity_def)

lemma counted_summary_invariant:
  "summaryInvariant
     \<lparr> AuditSummary.critical = countSeverity SevCritical vs, high = countSeverity SevHigh vs,
       moderate = countSeverity SevModerate vs, low = countSeverity SevLow vs,
       total = int (length vs) \<rparr>"
  using countSeverity_sum [of vs] by (simp add: summaryInvariant_def countSeverity_nonneg)

lemma yarnAuditLine_summary:
  "snd (yarnAuditLine parse st line) = snd st
   \<or> (\<exists>p sd. parse line = Inr p \<and> YarnAuditLine.type' p = ''auditSummary''
          \<and> YarnAuditLine.data p = SummaryData sd
          \<and> snd (yarnAuditLine parse st line)
               = Some (countsSummary (YarnSummaryData.vulnerabilities sd)))"
  by (auto simp: yarnAuditLine_def split: sum.splits YarnAuditData.splits)

lemma yarn_fold_summary:
  "snd (foldl (yarnAuditLine parse) st ls) = snd st
   \<or> (\<exists>line p sd. line \<in> set ls \<and> parse line = Inr p
          \<and> YarnAuditLine.type' p = ''auditSummary'' \<and> YarnAuditLine.data p = SummaryData sd
          \<and> snd (foldl (yarnAuditLine parse) st ls)
               = Some (countsSummary (YarnSummaryData.vulnerabilities sd)))"
proof (induction ls arbitrary: st)
  case Nil
  then show ?case by simp
next
  case (Cons l ls)
  let ?st = "yarnAuditLine parse st l"
  let ?res = "foldl (yarnAuditLine parse) ?st ls"
  have step: "foldl (yarnAuditLine parse) st (l # ls) = ?res" by simp
  from Cons.IH [of ?st] consider
    (same) "snd ?res = snd ?st"
    | (later) line p sd where "line \<in> set ls" "parse line = Inr p"
        "YarnAuditLine.type' p = ''auditSummary''" "YarnAuditLine.data p = SummaryData sd"
        "snd ?res = Some (countsSummary (YarnSummaryData.vulnerabilities sd))"
    by blast
  then show ?case
  proof cases
    case later
    from later(1) have "line \<in> set (l # ls)" by simp
    with later(2-5) show ?thesis unfolding step by blast
  next
    case same
    from yarnAuditLine_summary [of parse st l] consider
      (kept) "snd ?st = snd st"
      | (here) p sd where "parse l = Inr p" "YarnAuditLine.type' p = ''auditSummary''"
          "YarnAuditLine.data p = SummaryData sd"
          "snd ?st = Some (countsSummary (YarnSummaryData.vulnerabilities sd))"
      by blast
    then show ?thesis
    proof cases
      case kept
      with same show ?thesis unfolding step by simp
    next
      case here
      have "l \<in> set (l # ls)" by simp
      moreover from same here(4)
      have "snd ?res = Some (countsSummary (YarnSummaryData.vulnerabilities sd))" by simp
      ultimately show ?thesis using here(1-3) unfolding step by blast
    qed
  qed
qed

lemma parseYarnAudit_summary:
  assumes "parseYarnAudit parse outY = Some r"
  shows "(\<exists>line p sd. line \<in> set (splitOn CHR 0x0A (trim outY)) \<and> parse line = Inr p
            \<and> YarnAuditLine.type' p = ''auditSummary'' \<and> YarnAuditLine.data p = SummaryData sd
            \<and> summary r = countsSummary (YarnSummaryData.vulnerabilities sd))
         \<or> summary r =
              \<lparr> AuditSummary.critical = countSeverity SevCritical (AuditResult.vulnerabilities r),
                high = countSeverity SevHigh (AuditResult.vulnerabilities r),
                moderate = countSeverity SevModerate (AuditResult.vulnerabilities r),
                low = countSeverity SevLow (AuditResult.vulnerabilities r),
                total = int (length (AuditResult.vulnerabilities r)) \<rparr>"
proof -
  let ?ls = "splitOn CHR 0x0A (trim outY)"
  obtain found s where f: "foldl (yarnAuditLine parse) ([], None) ?ls = (found, s)"
    by (cases "foldl (yarnAuditLine parse) ([], None) ?ls")
  show ?thesis
  proof (cases s)
    case None
    with assms f show ?thesis
      by (auto simp: parseYarnAudit_def split: if_splits)
  next
    case (Some s')
    with assms f have r: "summary r = s'"
      by (auto simp: parseYarnAudit_def split: if_splits)
    from yarn_fold_summary [of parse "([], None)" ?ls] f Some r
    show ?thesis by auto
  qed
qed

lemma parseNpmAudit_Some:
  assumes "parseNpmAudit parse outN = Some r"
  shows "\<exists>d md meta. parse outN = Inr d \<and> NpmAuditOutput.metadata d = Some md
           \<and> NpmMetadata.vulnerabilities md = Some meta
           \<and> summary r =
               \<lparr> AuditSummary.critical = orZero (NpmVulnerabilityCounts.critical meta),
                 high = orZero (NpmVulnerabilityCounts.high meta),
                 moderate = orZero (NpmVulnerabilityCounts.moderate meta),
                 low = orZero (NpmVulnerabilityCounts.low meta),
                 total = orZero (NpmVulnerabilityCounts.total meta) \<rparr>"
  using assms
  by (auto simp: parseNpmAudit_def Let_def split: if_splits sum.splits option.splits)

lemma parsePnpmAudit_summary:
  assumes "parsePnpmAudit parse outP = Some r"
  shows "\<exists>d md meta. parse outP = Inr d \<and> PnpmAuditOutput.metadata d = Some md
           \<and> PnpmMetadata.vulnerabilities md = Some meta
           \<and> summary r = countsSummary meta"
  using assms
  by (auto simp: parsePnpmAudit_def Let_def split: if_splits sum.splits option.splits)

text \<open>
  Claim C7, as the code has it. A summary of \<open>parsePnpmAudit\<close>, and one of \<open>parseYarnAudit\<close>
  taken from a summary line, holds the four reported counts (0 for a missing one) and as total
  their sum plus the reported \<open>info\<close> count; so it has no negative field and a total of at
  least the sum of the four whenever no reported count is negative. A summary that
  \<open>parseYarnAudit\<close> makes without a summary line counts the emitted vulnerabilities by
  severity, with their number as total, and always has these properties. A summary of
  \<open>parseNpmAudit\<close> holds the five counts of \<open>metadata.vulnerabilities\<close> as they are (0 for
  a missing one), the total included.
\<close>

theorem audit_summary_totals:
  "(parsePnpmAudit parseP outP = Some rP \<longrightarrow>
      (\<exists>d md meta. parseP outP = Inr d \<and> PnpmAuditOutput.metadata d = Some md
           \<and> PnpmMetadata.vulnerabilities md = Some meta
           \<and> summary rP = countsSummary meta))
   \<and> (parseYarnAudit parseY outY = Some rY \<longrightarrow>
      (\<exists>line p sd. line \<in> set (splitOn CHR 0x0A (trim outY)) \<and> parseY line = Inr p
            \<and> YarnAuditLine.type' p = ''auditSummary'' \<and> YarnAuditLine.data p = SummaryData sd
            \<and> summary rY = countsSummary (YarnSummaryData.vulnerabilities sd))
      \<or> (summary rY =
              \<lparr> AuditSummary.critical = countSeverity SevCritical (AuditResult.vulnerabilities rY),
                high = countSeverity SevHigh (AuditResult.vulnerabilities rY),
                moderate = countSeverity SevModerate (AuditResult.vulnerabilities rY),
                low = countSeverity SevLow (AuditResult.vulnerabilities rY),
                total = int (length (AuditResult.vulnerabilities rY)) \<rparr>
          \<and> summaryInvariant (summary rY)))
   \<and> AuditSummary.total (countsSummary counts)
       = AuditSummary.critical (countsSummary counts) + AuditSummary.high (countsSummary counts)
         + AuditSummary.moderate (countsSummary counts) + AuditSummary.low (countsSummary counts)
         + orZero (info counts)
   \<and> (countsNonNegative counts \<longrightarrow> summaryInvariant (countsSummary counts))
   \<and> (parseNpmAudit parseN outN = Some rN \<longrightarrow>
      (\<exists>d md meta. parseN outN = Inr d \<and> NpmAuditOutput.metadata d = Some md
           \<and> NpmMetadata.vulnerabilities md = Some meta
           \<and> summary rN =
               \<lparr> AuditSummary.critical = orZero (NpmVulnerabilityCounts.critical meta),
                 high = orZero (NpmVulnerabilityCounts.high meta),
                 moderate = orZero (NpmVulnerabilityCounts.moderate meta),
                 low = orZero (NpmVulnerabilityCounts.low meta),
                 total = orZero (NpmVulnerabilityCounts.total meta) \<rparr>))"
proof -
  have yarn: "parseYarnAudit parseY outY = Some rY \<longrightarrow>
      (\<exists>line p sd. line \<in> set (splitOn CHR 0x0A (trim outY)) \<and> parseY line = Inr p
            \<and> YarnAuditLine.type' p = ''auditSummary'' \<and> YarnAuditLine.data p = SummaryData sd
            \<and> summary rY = countsSummary (YarnSummaryData.vulnerabilities sd))
      \<or> (summary rY =
              \<lparr> AuditSummary.critical = countSeverity SevCritical (AuditResult.vulnerabilities rY),
                high = countSeverity SevHigh (AuditResult.vulnerabilities rY),
                moderate = countSeverity SevModerate (AuditResult.vulnerabilities rY),
                low = countSeverity SevLow (AuditResult.vulnerabilities rY),
                total = int (length (AuditResult.vulnerabilities rY)) \<rparr>
          \<and> summaryInvariant (summary rY))"
  proof
    assume h: "parseYarnAudit parseY outY = Some rY"
    from parseYarnAudit_summary [OF h] counted_summary_invariant [of "AuditResult.vulnerabilities rY"]
    show "(\<exists>line p sd. line \<in> set (splitOn CHR 0x0A (trim outY)) \<and> parseY line = Inr p
            \<and> YarnAuditLine.type' p = ''auditSummary'' \<and> YarnAuditLine.data p = SummaryData sd
            \<and> summary rY = countsSummary (YarnSummaryData.vulnerabilities sd))
      \<or> (summary rY =
              \<lparr> AuditSummary.critical = countSeverity SevCritical (AuditResult.vulnerabilities rY),
                high = countSeverity SevHigh (AuditResult.vulnerabilities rY),
                moderate = countSeverity SevModerate (AuditResult.vulnerabilities rY),
                low = countSeverity SevLow (AuditResult.vulnerabilities rY),
                total = int (length (AuditResult.vulnerabilities rY)) \<rparr>
          \<and> summaryInvariant (summary rY))"
      by auto
  qed
  from yarn parsePnpmAudit_summary [of parseP outP rP] parseNpmAudit_Some [of parseN outN rN]
    countsSummary_total [of counts] countsSummary_invariant [of counts]
  show ?thesis by blast
qed


theorem audit_summary_totals_witness:
  "parsePnpmAudit
     (\<lambda>text. Inr \<lparr> advisories = Some [],
         metadata = Some \<lparr> PnpmMetadata.vulnerabilities = Some
           \<lparr> info = Some 2, low = Some 4, moderate = Some 3, high = Some 3, critical = Some 1 \<rparr> \<rparr>,
         error' = None \<rparr>)
     ''{...}''
   = Some \<lparr> AuditResult.vulnerabilities = [],
            summary = \<lparr> AuditSummary.critical = 1, high = 3, moderate = 3, low = 4, total = 13 \<rparr> \<rparr>
   \<and> parseYarnAudit
       (\<lambda>line. if line = ''summary'' then
                  Inr \<lparr> YarnAuditLine.type' = ''auditSummary'',
                        data = SummaryData \<lparr> YarnSummaryData.vulnerabilities =
                          \<lparr> info = Some 0, low = Some 1, moderate = Some 0, high = Some 0,
                            critical = Some 0 \<rparr> \<rparr> \<rparr>
                else Inl SyntaxError)
       (''noise'' @ [CHR 0x0A] @ ''summary'')
     = Some \<lparr> AuditResult.vulnerabilities = [],
              summary = \<lparr> AuditSummary.critical = 0, high = 0, moderate = 0, low = 1, total = 1 \<rparr> \<rparr>
   \<and> parseNpmAudit
       (\<lambda>text. Inr \<lparr> NpmAuditOutput.vulnerabilities = Some [],
           metadata = Some \<lparr> NpmMetadata.vulnerabilities = Some
             \<lparr> NpmVulnerabilityCounts.low = Some 1, moderate = Some 2, high = Some 0,
               critical = Some 0, total = Some 3 \<rparr> \<rparr> \<rparr>)
       ''{...}''
     = Some \<lparr> AuditResult.vulnerabilities = [],
              summary = \<lparr> AuditSummary.critical = 0, high = 0, moderate = 2, low = 1, total = 3 \<rparr> \<rparr>
   \<and> summaryInvariant
       (countsSummary \<lparr> info = Some 2, low = Some 4, moderate = Some 3, high = Some 3,
                        critical = Some 1 \<rparr>)"
  (is "parsePnpmAudit ?parseP ?out = Some ?rP \<and> parseYarnAudit ?parseY ?outY = Some ?rY
       \<and> parseNpmAudit ?parseN ?out = Some ?rN \<and> summaryInvariant (countsSummary ?counts)")
proof -
  have runP: "parsePnpmAudit ?parseP ?out = Some ?rP" by code_simp
  have runY: "parseYarnAudit ?parseY ?outY = Some ?rY" by code_simp
  have runN: "parseNpmAudit ?parseN ?out = Some ?rN" by code_simp
  have nonneg: "countsNonNegative ?counts" by (simp add: countsNonNegative_def orZero_def)
  from audit_summary_totals
         [where parseP = ?parseP and outP = ?out and rP = ?rP and parseY = ?parseY
            and outY = ?outY and rY = ?rY and counts = ?counts and parseN = ?parseN
            and outN = ?out and rN = ?rN]
       runP runY runN nonneg
  have "summaryInvariant (countsSummary ?counts)" by blast
  with runP runY runN show ?thesis by blast
qed

text \<open>
  The invariant fails where the report does not have it: an npm report with 5 critical
  vulnerabilities and a total of 0, a pnpm report with 1 critical and an \<open>info\<close> count of -1.
\<close>

theorem audit_summary_invariant_counterexample:
  "parseNpmAudit
     (\<lambda>text. Inr \<lparr> NpmAuditOutput.vulnerabilities = Some [],
         metadata = Some \<lparr> NpmMetadata.vulnerabilities = Some
           \<lparr> NpmVulnerabilityCounts.low = Some 0, moderate = Some 0, high = Some 0,
             critical = Some 5, total = Some 0 \<rparr> \<rparr> \<rparr>)
     ''{...}''
   = Some \<lparr> AuditResult.vulnerabilities = [],
            summary = \<lparr> AuditSummary.critical = 5, high = 0, moderate = 0, low = 0, total = 0 \<rparr> \<rparr>
   \<and> \<not> summaryInvariant
         \<lparr> AuditSummary.critical = 5, high = 0, moderate = 0, low = 0, total = 0 \<rparr>
   \<and> parsePnpmAudit
       (\<lambda>text. Inr \<lparr> advisories = Some [],
           metadata = Some \<lparr> PnpmMetadata.vulnerabilities = Some
             \<lparr> info = Some (- 1), low = Some 0, moderate = Some 0, high = Some 0,
               critical = Some 1 \<rparr> \<rparr>,
           error' = None \<rparr>)
       ''{...}''
     = Some \<lparr> AuditResult.vulnerabilities = [],
              summary = \<lparr> AuditSummary.critical = 1, high = 0, moderate = 0, low = 0, total = 0 \<rparr> \<rparr>
   \<and> \<not> summaryInvariant
         \<lparr> AuditSummary.critical = 1, high = 0, moderate = 0, low = 0, total = 0 \<rparr>"
  (is "?a \<and> ?b \<and> ?c \<and> ?d")
proof -
  have a: ?a by code_simp
  have c: ?c by code_simp
  have b: ?b by (simp add: summaryInvariant_def)
  have d: ?d by (simp add: summaryInvariant_def)
  from a b c d show ?thesis by blast
qed


end
